theory Spec2Isabelle
  imports Main "HOL-Library.AList" "HOL-Library.Option_ord"
begin

section \<open>Terra Tranquil API: documents, the store and the endpoints\<close>

subsection \<open>Values and documents\<close>

text \<open>
  A document is a Python dict, kept as an association list in insertion order. The values
  are the ones the program stores: None, booleans, integers, strings, ObjectIds and the
  list of booleans of the eco checklist.
\<close>

datatype val = VNone | VBool bool | VInt int | VStr string | VOid string | VBools "bool list"

type_synonym doc = "(string \<times> val) list"

text \<open>\<open>d.get(k)\<close>, \<open>d[k] = v\<close> and \<open>d.pop(k, None)\<close>.\<close>

definition dict_get :: "doc \<Rightarrow> string \<Rightarrow> val option" where
  "dict_get d k = map_of d k"

definition dict_set :: "string \<Rightarrow> val \<Rightarrow> doc \<Rightarrow> doc" where
  "dict_set k v d = AList.update k v d"

definition dict_pop :: "string \<Rightarrow> doc \<Rightarrow> doc" where
  "dict_pop k d = AList.delete k d"

datatype error = HTTPException nat string | Unhandled string

subsection \<open>ObjectId\<close>

text \<open>
  \<open>bson.ObjectId\<close> is a library class: built from a string it accepts the strings of
  24 characters that \<open>bytes.fromhex\<close> parses, and \<open>str\<close> of it is the lower-case
  hexadecimal form of the parsed bytes. \<open>bytes.fromhex\<close> reads pairs of hexadecimal
  digits and skips ASCII whitespace before a pair and at the end, so the parsed id of a
  string that holds whitespace is shorter than twelve bytes. An ObjectId is kept here as
  its lower-case hexadecimal string.
\<close>

definition is_hex :: "char \<Rightarrow> bool" where
  "is_hex c = (c \<in> set ''0123456789abcdefABCDEF'')"

definition lower_hex :: "char \<Rightarrow> char" where
  "lower_hex c =
     (if c = CHR ''A'' then CHR ''a'' else if c = CHR ''B'' then CHR ''b''
      else if c = CHR ''C'' then CHR ''c'' else if c = CHR ''D'' then CHR ''d''
      else if c = CHR ''E'' then CHR ''e'' else if c = CHR ''F'' then CHR ''f'' else c)"

definition is_space :: "char \<Rightarrow> bool" where
  "is_space c = (c \<in> set [CHR '' '', CHR 0x09, CHR 0x0A, CHR 0x0B, CHR 0x0C, CHR 0x0D])"

fun fromhex :: "string \<Rightarrow> string option" where
  "fromhex [] = Some []"
| "fromhex [c] = (if is_space c then Some [] else None)"
| "fromhex (c # d # cs) =
     (if is_space c then fromhex (d # cs)
      else if is_hex c \<and> is_hex d then
        (case fromhex cs of
           None \<Rightarrow> None
         | Some bs \<Rightarrow> Some (lower_hex c # lower_hex d # bs))
      else None)"

definition ObjectId :: "string \<Rightarrow> string option" where
  "ObjectId id_str = (if length id_str = 24 then fromhex id_str else None)"

definition to_obj_id :: "string \<Rightarrow> error + string" where
  "to_obj_id id_str =
     (case ObjectId id_str of
        Some oid \<Rightarrow> Inr oid
      | None \<Rightarrow> Inl (HTTPException 400 ''Invalid id''))"

definition hex_digit :: "nat \<Rightarrow> char" where
  "hex_digit d = ''0123456789abcdef'' ! (d mod 16)"

fun hex_digits :: "nat \<Rightarrow> nat \<Rightarrow> string" where
  "hex_digits 0 n = []"
| "hex_digits (Suc k) n = hex_digits k (n div 16) @ [hex_digit n]"

definition hex24 :: "nat \<Rightarrow> string" where
  "hex24 n = hex_digits 24 n"

subsection \<open>The store\<close>

text \<open>
  A stored document is its ObjectId (the \<open>_id\<close> key) and its other fields; read from the
  store it is a dict with \<open>_id\<close> first. The store holds the three collections the
  program uses, the counter the next ObjectId is made of, and a clock for creation times.
  The global \<open>db\<close> of the program is a \<open>store option\<close>, \<open>None\<close> when the database is
  not configured.
\<close>

type_synonym stored = "string \<times> doc"

definition to_dict :: "stored \<Rightarrow> doc" where
  "to_dict sd = (''_id'', VOid (fst sd)) # snd sd"

record store =
  business :: "stored list"
  visit :: "stored list"
  impact :: "stored list"
  next_oid :: nat
  clock :: int

datatype collection = C_business | C_visit | C_impact

fun coll_get :: "collection \<Rightarrow> store \<Rightarrow> stored list" where
  "coll_get C_business s = business s"
| "coll_get C_visit s = visit s"
| "coll_get C_impact s = impact s"

fun coll_put :: "collection \<Rightarrow> stored list \<Rightarrow> store \<Rightarrow> store" where
  "coll_put C_business ds s = s\<lparr>business := ds\<rparr>"
| "coll_put C_visit ds s = s\<lparr>visit := ds\<rparr>"
| "coll_put C_impact ds s = s\<lparr>impact := ds\<rparr>"

definition new_oid :: "store \<Rightarrow> string" where
  "new_oid s = hex24 (next_oid s)"

text \<open>A query \<open>{k: v}\<close> matches a stored document whose field \<open>k\<close> equals \<open>v\<close>.\<close>

definition matches :: "string \<Rightarrow> val \<Rightarrow> stored \<Rightarrow> bool" where
  "matches k v sd = (dict_get (to_dict sd) k = Some v)"

definition find_one :: "collection \<Rightarrow> string \<Rightarrow> val \<Rightarrow> store \<Rightarrow> doc option" where
  "find_one c k v s = map_option to_dict (find (matches k v) (coll_get c s))"

definition insert_one :: "collection \<Rightarrow> doc \<Rightarrow> store \<Rightarrow> string \<times> store" where
  "insert_one c d s =
     (new_oid s, (coll_put c (coll_get c s @ [(new_oid s, d)]) s)\<lparr>next_oid := Suc (next_oid s)\<rparr>)"

text \<open>
  An update document with the three operators the program uses. \<open>$inc\<close> creates a missing
  field with the increment and is refused by the store on a field that is not a number.
\<close>

record update =
  u_setOnInsert :: "(string \<times> val) list"
  u_inc :: "(string \<times> int) list"
  u_set :: "(string \<times> val) list"

fun apply_set :: "(string \<times> val) list \<Rightarrow> doc \<Rightarrow> doc" where
  "apply_set [] d = d"
| "apply_set ((k, v) # kvs) d = apply_set kvs (dict_set k v d)"

fun apply_inc :: "(string \<times> int) list \<Rightarrow> doc \<Rightarrow> error + doc" where
  "apply_inc [] d = Inr d"
| "apply_inc ((k, n) # kns) d =
     (case dict_get d k of
        None \<Rightarrow> apply_inc kns (dict_set k (VInt n) d)
      | Some (VInt m) \<Rightarrow> apply_inc kns (dict_set k (VInt (m + n)) d)
      | Some _ \<Rightarrow> Inl (Unhandled ''WriteError''))"

definition apply_update :: "update \<Rightarrow> doc \<Rightarrow> error + doc" where
  "apply_update u d = apply_inc (u_inc u) (apply_set (u_set u) d)"

fun update_first :: "(stored \<Rightarrow> bool) \<Rightarrow> (doc \<Rightarrow> error + doc) \<Rightarrow> stored list
    \<Rightarrow> (error + stored list) option" where
  "update_first P f [] = None"
| "update_first P f (sd # sds) =
     (if P sd then
        (case f (snd sd) of
           Inl e \<Rightarrow> Some (Inl e)
         | Inr d \<Rightarrow> Some (Inr ((fst sd, d) # sds)))
      else
        (case update_first P f sds of
           None \<Rightarrow> None
         | Some (Inl e) \<Rightarrow> Some (Inl e)
         | Some (Inr sds') \<Rightarrow> Some (Inr (sd # sds'))))"

text \<open>
  \<open>update_one({k: v}, u, upsert)\<close>: the first matching document is updated; with no match
  and \<open>upsert\<close>, a document is inserted that is made of the query's field, the
  \<open>$setOnInsert\<close> fields and the update. A refused update changes nothing.
\<close>

definition update_one :: "collection \<Rightarrow> string \<Rightarrow> val \<Rightarrow> update \<Rightarrow> bool \<Rightarrow> store
    \<Rightarrow> (error + unit) \<times> store" where
  "update_one c k v u upsert s =
     (case update_first (matches k v) (apply_update u) (coll_get c s) of
        Some (Inl e) \<Rightarrow> (Inl e, s)
      | Some (Inr ds) \<Rightarrow> (Inr (), coll_put c ds s)
      | None \<Rightarrow>
          if upsert then
            (case apply_update u (apply_set (u_setOnInsert u) [(k, v)]) of
               Inl e \<Rightarrow> (Inl e, s)
             | Inr d \<Rightarrow> (Inr (), snd (insert_one c d s)))
          else (Inr (), s))"

text \<open>
  Modelled from the spec: \<open>database.create_document\<close> is imported by \<open>main.py\<close> and is
  not among the sources. The spec's store adapter is a thin wrapper whose create
  operation persists the record under a store-assigned identity, and visits are listed
  by creation time: the document is stamped with \<open>created_at\<close>, inserted, and the string
  form of its new id is returned.
\<close>

definition create_document :: "collection \<Rightarrow> doc \<Rightarrow> store \<Rightarrow> string \<times> store" where
  "create_document c d s =
     (let (oid, s') = insert_one c (d @ [(''created_at'', VInt (clock s))]) s
      in (oid, s'\<lparr>clock := clock s + 1\<rparr>))"

subsection \<open>Schemas\<close>

text \<open>
  The pydantic models of \<open>schemas.py\<close> and the request models of \<open>main.py\<close>. Building a
  model validates its fields; \<open>model_dump\<close> gives the dict of all fields, defaults
  included.
\<close>

record BusinessCreate =
  bc_name :: string
  bc_category :: string
  bc_location :: string
  bc_website :: "string option"
  bc_description :: "string option"
  bc_eco_checks :: "bool list"
  bc_logo_url :: "string option"

record VisitCreate =
  vc_user_id :: string
  vc_username :: string
  vc_business_id :: string

definition opt_str :: "string option \<Rightarrow> val" where
  "opt_str x = (case x of None \<Rightarrow> VNone | Some s \<Rightarrow> VStr s)"

definition BusinessCreate_dump :: "BusinessCreate \<Rightarrow> doc" where
  "BusinessCreate_dump p =
     [(''name'', VStr (bc_name p)), (''category'', VStr (bc_category p)),
      (''location'', VStr (bc_location p)), (''website'', opt_str (bc_website p)),
      (''description'', opt_str (bc_description p)), (''eco_checks'', VBools (bc_eco_checks p)),
      (''logo_url'', opt_str (bc_logo_url p))]"

definition is_str :: "val option \<Rightarrow> bool" where
  "is_str x = (case x of Some (VStr _) \<Rightarrow> True | _ \<Rightarrow> False)"

definition is_opt_str :: "val option \<Rightarrow> bool" where
  "is_opt_str x = (case x of None \<Rightarrow> True | Some VNone \<Rightarrow> True | Some (VStr _) \<Rightarrow> True | _ \<Rightarrow> False)"

definition field_or :: "doc \<Rightarrow> string \<Rightarrow> val \<Rightarrow> val" where
  "field_or d k dflt = (case dict_get d k of None \<Rightarrow> dflt | Some v \<Rightarrow> v)"

text \<open>
  \<open>BusinessSchema(**data).model_dump()\<close>: \<open>eco_score\<close> is an integer between 0 and 100
  with default 80, \<open>eco_checks\<close> a list of booleans with default \<open>[]\<close>.
\<close>

definition BusinessSchema :: "doc \<Rightarrow> error + doc" where
  "BusinessSchema data =
     (if is_str (dict_get data ''name'') \<and> is_str (dict_get data ''category'')
         \<and> is_str (dict_get data ''location'') \<and> is_opt_str (dict_get data ''website'')
         \<and> is_opt_str (dict_get data ''description'') \<and> is_opt_str (dict_get data ''logo_url'')
         \<and> is_opt_str (dict_get data ''hero_image'')
         \<and> (case dict_get data ''eco_checks'' of None \<Rightarrow> True | Some (VBools _) \<Rightarrow> True | _ \<Rightarrow> False)
         \<and> (case dict_get data ''eco_score'' of
               None \<Rightarrow> True | Some (VInt n) \<Rightarrow> 0 \<le> n \<and> n \<le> 100 | _ \<Rightarrow> False)
      then Inr [(''name'', field_or data ''name'' VNone),
                (''category'', field_or data ''category'' VNone),
                (''location'', field_or data ''location'' VNone),
                (''website'', field_or data ''website'' VNone),
                (''description'', field_or data ''description'' VNone),
                (''eco_checks'', field_or data ''eco_checks'' (VBools [])),
                (''logo_url'', field_or data ''logo_url'' VNone),
                (''eco_score'', field_or data ''eco_score'' (VInt 80)),
                (''hero_image'', field_or data ''hero_image'' VNone)]
      else Inl (Unhandled ''ValidationError''))"

text \<open>\<open>VisitSchema(...)\<close>: the three fields copied from the business must be strings.\<close>

definition VisitSchema :: "string \<Rightarrow> string \<Rightarrow> val option \<Rightarrow> val option \<Rightarrow> val option \<Rightarrow> int
    \<Rightarrow> error + doc" where
  "VisitSchema user_id business_id business_name category location eco_points =
     (case (business_name, category, location) of
        (Some (VStr n), Some (VStr c), Some (VStr l)) \<Rightarrow>
          Inr [(''user_id'', VStr user_id), (''business_id'', VStr business_id),
               (''business_name'', VStr n), (''category'', VStr c), (''location'', VStr l),
               (''eco_points'', VInt eco_points)]
      | _ \<Rightarrow> Inl (Unhandled ''ValidationError''))"

definition ImpactSchema :: "string \<Rightarrow> string \<Rightarrow> doc" where
  "ImpactSchema user_id username =
     [(''user_id'', VStr user_id), (''username'', VStr username), (''visits'', VInt 0),
      (''eco_points'', VInt 0), (''community_impact'', VInt 0), (''terra_level'', VInt 0)]"

subsection \<open>Endpoints\<close>

text \<open>\<open>str(x)\<close> of a stored value; of an ObjectId it is the hexadecimal string.\<close>

fun dec :: "nat \<Rightarrow> string" where
  "dec n = (if n < 10 then [''0123456789'' ! n] else dec (n div 10) @ [''0123456789'' ! (n mod 10)])"

definition str_bool :: "bool \<Rightarrow> string" where
  "str_bool b = (if b then ''True'' else ''False'')"

fun join_comma :: "string list \<Rightarrow> string" where
  "join_comma [] = []"
| "join_comma [x] = x"
| "join_comma (x # y # ys) = x @ '', '' @ join_comma (y # ys)"

fun str_val :: "val \<Rightarrow> string" where
  "str_val VNone = ''None''"
| "str_val (VBool b) = str_bool b"
| "str_val (VInt n) = (if n < 0 then ''-'' @ dec (nat (- n)) else dec (nat n))"
| "str_val (VStr s) = s"
| "str_val (VOid oid) = oid"
| "str_val (VBools bs) = ''['' @ join_comma (map str_bool bs) @ '']''"

text \<open>\<open>doc["id"] = str(doc.pop("_id"))\<close>; \<open>pop\<close> raises on a missing key.\<close>

definition business_doc_to_response :: "doc \<Rightarrow> error + doc" where
  "business_doc_to_response d =
     (case dict_get d ''_id'' of
        None \<Rightarrow> Inl (Unhandled ''KeyError'')
      | Some v \<Rightarrow> Inr (dict_set ''id'' (VStr (str_val v)) (dict_pop ''_id'' d)))"

fun map_err :: "('a \<Rightarrow> error + 'b) \<Rightarrow> 'a list \<Rightarrow> error + 'b list" where
  "map_err f [] = Inr []"
| "map_err f (x # xs) =
     (case f x of
        Inl e \<Rightarrow> Inl e
      | Inr y \<Rightarrow> (case map_err f xs of Inl e \<Rightarrow> Inl e | Inr ys \<Rightarrow> Inr (y # ys)))"

definition lower_ascii :: "char \<Rightarrow> char" where
  "lower_ascii c =
     (if (65::nat) \<le> of_char c \<and> of_char c \<le> (90::nat) then char_of (of_char c + (32::nat))
      else c)"

definition category_query :: "string option \<Rightarrow> stored \<Rightarrow> bool" where
  "category_query category sd =
     (case category of
        None \<Rightarrow> True
      | Some c \<Rightarrow>
          if c \<noteq> [] \<and> map lower_ascii c \<noteq> ''all'' then matches ''category'' (VStr c) sd
          else True)"

text \<open>
  The \<open>$regex\<close> query is evaluated by the store; its case-insensitive matcher is the
  parameter \<open>regex_i\<close> (pattern, then subject).
\<close>

definition name_query :: "(string \<Rightarrow> string \<Rightarrow> bool) \<Rightarrow> string option \<Rightarrow> stored \<Rightarrow> bool" where
  "name_query regex_i search sd =
     (case search of
        None \<Rightarrow> True
      | Some t \<Rightarrow>
          if t \<noteq> [] then
            (case dict_get (to_dict sd) ''name'' of
               Some (VStr n) \<Rightarrow> regex_i t n
             | _ \<Rightarrow> False)
          else True)"

definition list_businesses :: "(string \<Rightarrow> string \<Rightarrow> bool) \<Rightarrow> store option \<Rightarrow> string option
    \<Rightarrow> string option \<Rightarrow> error + doc list" where
  "list_businesses regex_i db search category =
     (case db of
        None \<Rightarrow> Inr []
      | Some s \<Rightarrow>
          map_err business_doc_to_response
            (map to_dict
              (take 100
                (filter (\<lambda>sd. category_query category sd \<and> name_query regex_i search sd)
                  (business s)))))"

definition get_business :: "store option \<Rightarrow> string \<Rightarrow> error + doc" where
  "get_business db business_id =
     (case db of
        None \<Rightarrow> Inl (HTTPException 500 ''Database not available'')
      | Some s \<Rightarrow>
          (case to_obj_id business_id of
             Inl e \<Rightarrow> Inl e
           | Inr oid \<Rightarrow>
               (case find_one C_business ''_id'' (VOid oid) s of
                  None \<Rightarrow> Inl (HTTPException 404 ''Business not found'')
                | Some d \<Rightarrow> business_doc_to_response d)))"

definition eco_score_of :: "bool list \<Rightarrow> int" where
  "eco_score_of checks = 60 + int (length (filter (\<lambda>c. c) checks)) * 8"

text \<open>
  \<open>register_business\<close>. With no database neither \<open>create_document\<close> nor the read of
  \<open>db.business\<close> can succeed, and the exception is not handled.
\<close>

definition register_business :: "store option \<Rightarrow> BusinessCreate \<Rightarrow> (error + doc) \<times> store option" where
  "register_business db payload =
     (let data = BusinessCreate_dump payload;
          checks = bc_eco_checks payload;
          data = (if checks \<noteq> [] then dict_set ''eco_score'' (VInt (eco_score_of checks)) data
                  else data)
      in case BusinessSchema data of
           Inl e \<Rightarrow> (Inl e, db)
         | Inr b \<Rightarrow>
             (case db of
                None \<Rightarrow> (Inl (Unhandled ''Exception''), None)
              | Some s \<Rightarrow>
                  (let (bid, s') = create_document C_business b s
                   in case ObjectId bid of
                        None \<Rightarrow> (Inl (Unhandled ''InvalidId''), Some s')
                      | Some oid \<Rightarrow>
                          (case find_one C_business ''_id'' (VOid oid) s' of
                             None \<Rightarrow> (Inl (Unhandled ''AttributeError''), Some s')
                           | Some d \<Rightarrow> (business_doc_to_response d, Some s')))))"

definition username_or_guest :: "string option \<Rightarrow> string" where
  "username_or_guest username =
     (case username of None \<Rightarrow> ''Guest'' | Some u \<Rightarrow> if u = [] then ''Guest'' else u)"

definition get_impact :: "store option \<Rightarrow> string \<Rightarrow> string option \<Rightarrow> (error + doc) \<times> store option" where
  "get_impact db user_id username =
     (case db of
        None \<Rightarrow> (Inr (ImpactSchema user_id (username_or_guest username)), None)
      | Some s \<Rightarrow>
          (case find_one C_impact ''user_id'' (VStr user_id) s of
             None \<Rightarrow>
               (let new_impact = ImpactSchema user_id (username_or_guest username);
                    s' = snd (create_document C_impact new_impact s)
                in (Inr new_impact, Some s'))
           | Some d \<Rightarrow> (Inr (dict_pop ''_id'' d), Some s)))"

definition created_at_key :: "stored \<Rightarrow> int option" where
  "created_at_key sd = (case dict_get (snd sd) ''created_at'' of Some (VInt t) \<Rightarrow> Some t | _ \<Rightarrow> None)"

definition get_user_visits :: "store option \<Rightarrow> string \<Rightarrow> error + doc list" where
  "get_user_visits db user_id =
     (case db of
        None \<Rightarrow> Inr []
      | Some s \<Rightarrow>
          map_err business_doc_to_response
            (map to_dict
              (take 100
                (rev (sort_key created_at_key
                  (filter (matches ''user_id'' (VStr user_id)) (visit s)))))))"

text \<open>The tiers of \<open>log_visit\<close>: the level recomputed from the visits counter.\<close>

definition level :: "int \<Rightarrow> int" where
  "level visits =
     (if visits \<ge> 20 then 3
      else if visits \<ge> 10 then 2
      else if visits \<ge> 3 then 1
      else 0)"

text \<open>\<open>imp.get("visits", 0)\<close> compared with a number: only numbers compare.\<close>

definition visits_of :: "doc \<Rightarrow> error + int" where
  "visits_of imp =
     (case dict_get imp ''visits'' of
        None \<Rightarrow> Inr 0
      | Some (VInt n) \<Rightarrow> Inr n
      | Some (VBool b) \<Rightarrow> Inr (if b then 1 else 0)
      | Some _ \<Rightarrow> Inl (Unhandled ''TypeError''))"

definition inc_update :: "VisitCreate \<Rightarrow> int \<Rightarrow> update" where
  "inc_update payload eco_points =
     \<lparr>u_setOnInsert = [(''user_id'', VStr (vc_user_id payload)),
                       (''username'', VStr (vc_username payload))],
      u_inc = [(''visits'', 1), (''eco_points'', eco_points), (''community_impact'', 1)],
      u_set = []\<rparr>"

definition level_update :: "int \<Rightarrow> update" where
  "level_update l = \<lparr>u_setOnInsert = [], u_inc = [], u_set = [(''terra_level'', VInt l)]\<rparr>"

text \<open>The second half of \<open>log_visit\<close>, from the recomputation of the level on.\<close>

definition recompute_level :: "string \<Rightarrow> store \<Rightarrow> (error + (string \<times> doc) list) \<times> store option" where
  "recompute_level user_id s =
     (case find_one C_impact ''user_id'' (VStr user_id) s of
        None \<Rightarrow> (Inl (Unhandled ''AttributeError''), Some s)
      | Some imp \<Rightarrow>
          (case visits_of imp of
             Inl e \<Rightarrow> (Inl e, Some s)
           | Inr visits \<Rightarrow>
               (case update_one C_impact ''user_id'' (VStr user_id) (level_update (level visits))
                       False s of
                  (Inl e, s') \<Rightarrow> (Inl e, Some s')
                | (Inr _, s') \<Rightarrow>
                    (case find_one C_impact ''user_id'' (VStr user_id) s' of
                       None \<Rightarrow> (Inl (Unhandled ''AttributeError''), Some s')
                     | Some imp' \<Rightarrow> (Inr [(''impact'', dict_pop ''_id'' imp')], Some s')))))"

definition log_visit :: "store option \<Rightarrow> VisitCreate \<Rightarrow> (error + (string \<times> doc) list) \<times> store option" where
  "log_visit db payload =
     (case db of
        None \<Rightarrow> (Inl (HTTPException 500 ''Database not available''), None)
      | Some s \<Rightarrow>
          (case to_obj_id (vc_business_id payload) of
             Inl e \<Rightarrow> (Inl e, Some s)
           | Inr oid \<Rightarrow>
               (case find_one C_business ''_id'' (VOid oid) s of
                  None \<Rightarrow> (Inl (HTTPException 404 ''Business not found''), Some s)
                | Some bdoc \<Rightarrow>
                    (case VisitSchema (vc_user_id payload) (vc_business_id payload)
                            (dict_get bdoc ''name'') (dict_get bdoc ''category'')
                            (dict_get bdoc ''location'') 10 of
                       Inl e \<Rightarrow> (Inl e, Some s)
                     | Inr new_visit \<Rightarrow>
                         (let s1 = snd (create_document C_visit new_visit s)
                          in case update_one C_impact ''user_id'' (VStr (vc_user_id payload))
                                    (inc_update payload 10) True s1 of
                               (Inl e, s2) \<Rightarrow> (Inl e, Some s2)
                             | (Inr _, s2) \<Rightarrow> recompute_level (vc_user_id payload) s2)))))"

subsection \<open>Predicates of the properties\<close>

text \<open>
  A business id is valid in a store when \<open>ObjectId\<close> accepts it and it is the id of a
  stored business whose name, category and location are strings, as the Business schema
  has them.
\<close>

definition valid_business :: "store \<Rightarrow> string \<Rightarrow> bool" where
  "valid_business s business_id =
     (case to_obj_id business_id of
        Inl _ \<Rightarrow> False
      | Inr oid \<Rightarrow>
          (case find_one C_business ''_id'' (VOid oid) s of
             None \<Rightarrow> False
           | Some b \<Rightarrow> is_str (dict_get b ''name'') \<and> is_str (dict_get b ''category'')
                        \<and> is_str (dict_get b ''location'')))"

subsection \<open>A small store\<close>

text \<open>One of the seeded businesses, a store that holds it, and a few requests.\<close>

definition grocers :: doc where
  "grocers =
     [(''name'', VStr ''Green Grove Grocers''), (''category'', VStr ''Groceries''),
      (''location'', VStr ''Riverside''), (''website'', VStr ''https://greengrove.example''),
      (''description'', VStr ''Organic produce, refill station, zero-waste aisle.''),
      (''eco_checks'', VBools [True, True, True, True, True]), (''logo_url'', VNone),
      (''eco_score'', VInt 88), (''hero_image'', VNone), (''created_at'', VInt 0)]"

definition seeded :: store where
  "seeded = \<lparr>business = [(''000000000000000000000000'', grocers)], visit = [], impact = [],
              next_oid = 1, clock = 1\<rparr>"

definition visit_by :: "string \<Rightarrow> string \<Rightarrow> VisitCreate" where
  "visit_by username business_id =
     \<lparr>vc_user_id = ''u1'', vc_username = username, vc_business_id = business_id\<rparr>"

definition new_business :: "bool list \<Rightarrow> BusinessCreate" where
  "new_business checks =
     \<lparr>bc_name = ''Leaf and Latte'', bc_category = ''Cafes'', bc_location = ''Downtown'',
      bc_website = None, bc_description = None, bc_eco_checks = checks, bc_logo_url = None\<rparr>"

text \<open>The seeded store after the first visit of user u1, as alice, to the grocers.\<close>

definition alice_visited :: store where
  "alice_visited =
     \<lparr>business = [(''000000000000000000000000'', grocers)],
      visit = [(''000000000000000000000001'',
                [(''user_id'', VStr ''u1''), (''business_id'', VStr ''000000000000000000000000''),
                 (''business_name'', VStr ''Green Grove Grocers''), (''category'', VStr ''Groceries''),
                 (''location'', VStr ''Riverside''), (''eco_points'', VInt 10),
                 (''created_at'', VInt 1)])],
      impact = [(''000000000000000000000002'',
                 [(''user_id'', VStr ''u1''), (''username'', VStr ''alice''), (''visits'', VInt 1),
                  (''eco_points'', VInt 10), (''community_impact'', VInt 1),
                  (''terra_level'', VInt 0)])],
      next_oid = 3, clock = 2\<rparr>"

text \<open>
  The Business document made of a request and a score, and the store's promise that the
  id it assigns next belongs to no business yet.
\<close>

definition business_record :: "BusinessCreate \<Rightarrow> int \<Rightarrow> doc" where
  "business_record p score =
     [(''name'', VStr (bc_name p)), (''category'', VStr (bc_category p)),
      (''location'', VStr (bc_location p)), (''website'', opt_str (bc_website p)),
      (''description'', opt_str (bc_description p)), (''eco_checks'', VBools (bc_eco_checks p)),
      (''logo_url'', opt_str (bc_logo_url p)), (''eco_score'', VInt score),
      (''hero_image'', VNone)]"

definition fresh_business_id :: "store \<Rightarrow> bool" where
  "fresh_business_id s = list_all (\<lambda>sd. fst sd \<noteq> new_oid s) (business s)"





section \<open>Properties\<close>

subsection \<open>Dicts and the store\<close>

lemma dict_get_set: "dict_get (dict_set k v d) k' = (if k' = k then Some v else dict_get d k')"
  by (simp add: dict_get_def dict_set_def update_conv')

lemma dict_get_pop: "dict_get (dict_pop k d) k' = (if k' = k then None else dict_get d k')"
  by (simp add: dict_get_def dict_pop_def delete_conv')

lemma dict_get_to_dict:
  "dict_get (to_dict sd) k = (if k = ''_id'' then Some (VOid (fst sd)) else dict_get (snd sd) k)"
  by (simp add: dict_get_def to_dict_def)

lemma matches_field: "k \<noteq> ''_id'' \<Longrightarrow> matches k v sd = (dict_get (snd sd) k = Some v)"
  by (simp add: matches_def dict_get_to_dict)

lemma matches_id: "matches ''_id'' v sd = (v = VOid (fst sd))"
  by (auto simp: matches_def dict_get_to_dict)

lemma update_first_None: "(update_first P f ds = None) = (find P ds = None)"
  by (induction ds) (auto split: sum.splits option.splits)

lemma update_first_Inr:
  "update_first P f ds = Some (Inr ds') \<Longrightarrow>
   \<exists>sd d'. find P ds = Some sd \<and> f (snd sd) = Inr d' \<and> set ds' \<subseteq> insert (fst sd, d') (set ds)
     \<and> (P (fst sd, d') \<longrightarrow> find P ds' = Some (fst sd, d'))"
proof (induction ds arbitrary: ds')
  case Nil
  then show ?case by simp
next
  case (Cons a ds)
  show ?case
  proof (cases "P a")
    case True
    with Cons.prems show ?thesis by (auto split: sum.splits)
  next
    case False
    with Cons.prems obtain r where r: "update_first P f ds = Some (Inr r)" and ds': "ds' = a # r"
      by (auto split: sum.splits option.splits)
    from Cons.IH[OF r] False ds' show ?thesis by auto
  qed
qed

lemma update_first_ok:
  "find P ds = Some sd \<Longrightarrow> f (snd sd) = Inr d' \<Longrightarrow> \<exists>ds'. update_first P f ds = Some (Inr ds')"
  by (induction ds) (auto split: sum.splits option.splits if_splits)

lemma update_first_refused:
  "find P ds = Some sd \<Longrightarrow> f (snd sd) = Inl e \<Longrightarrow> update_first P f ds = Some (Inl e)"
  by (induction ds) (auto split: sum.splits option.splits if_splits)

lemma update_one_existing:
  assumes "find (matches k v) (coll_get c s) = Some sd"
    and "apply_update u (snd sd) = Inr d'"
    and "matches k v (fst sd, d')"
  shows "\<exists>ds'. update_one c k v u ups s = (Inr (), coll_put c ds' s)
           \<and> find (matches k v) ds' = Some (fst sd, d')
           \<and> set ds' \<subseteq> insert (fst sd, d') (set (coll_get c s))"
proof -
  from update_first_ok[where f="apply_update u", OF assms(1,2)] obtain ds'
    where ds': "update_first (matches k v) (apply_update u) (coll_get c s) = Some (Inr ds')" by blast
  from update_first_Inr[OF ds'] assms
  have "find (matches k v) ds' = Some (fst sd, d')"
    and "set ds' \<subseteq> insert (fst sd, d') (set (coll_get c s))" by auto
  with ds' show ?thesis by (auto simp: update_one_def)
qed

lemma coll_get_put: "coll_get c (coll_put c ds s) = ds"
  by (cases c) simp_all

lemma apply_level_update: "apply_update (level_update l) d = Inr (dict_set ''terra_level'' (VInt l) d)"
  by (simp add: apply_update_def level_update_def)

lemma create_document_other:
  "impact (snd (create_document C_visit d s)) = impact s"
  "business (snd (create_document C_visit d s)) = business s"
  "business (snd (create_document C_impact d s)) = business s"
  "visit (snd (create_document C_impact d s)) = visit s"
  by (simp_all add: create_document_def insert_one_def)

lemma update_one_insert:
  assumes "find (matches k v) (coll_get c s) = None"
    and "apply_update u (apply_set (u_setOnInsert u) [(k, v)]) = Inr d"
  shows "update_one c k v u True s = (Inr (), snd (insert_one c d s))"
  using assms by (simp add: update_one_def update_first_None[THEN iffD2])

lemma apply_inc_update_new:
  "apply_update (inc_update p e) (apply_set (u_setOnInsert (inc_update p e)) [(''user_id'', VStr (vc_user_id p))])
   = Inr [(''user_id'', VStr (vc_user_id p)), (''username'', VStr (vc_username p)),
          (''visits'', VInt 1), (''eco_points'', VInt e), (''community_impact'', VInt 1)]"
  by (simp add: apply_update_def inc_update_def dict_set_def dict_get_def)

lemma apply_inc_update_existing:
  assumes "dict_get d ''visits'' = Some (VInt a)" "dict_get d ''eco_points'' = Some (VInt b)"
    "dict_get d ''community_impact'' = Some (VInt c)"
  shows "apply_update (inc_update p e) d =
     Inr (dict_set ''community_impact'' (VInt (c + 1))
           (dict_set ''eco_points'' (VInt (b + e)) (dict_set ''visits'' (VInt (a + 1)) d)))"
  using assms by (simp add: apply_update_def inc_update_def dict_get_set)

lemma find_one_impact:
  "find_one C_impact k v s = map_option to_dict (find (matches k v) (impact s))"
  by (simp add: find_one_def)

lemma dict_pop_to_dict: "dict_pop ''_id'' (to_dict sd) = dict_pop ''_id'' (snd sd)"
  by (simp add: dict_pop_def to_dict_def)

lemma recompute_level_existing:
  assumes f: "find (matches ''user_id'' (VStr u)) (impact s) = Some (ioid, d)"
    and v: "dict_get d ''visits'' = Some (VInt n)"
  shows "\<exists>imps. recompute_level u s =
            (Inr [(''impact'', dict_pop ''_id'' (dict_set ''terra_level'' (VInt (level n)) d))],
             Some (s\<lparr>impact := imps\<rparr>))
          \<and> find (matches ''user_id'' (VStr u)) imps
              = Some (ioid, dict_set ''terra_level'' (VInt (level n)) d)
          \<and> set imps \<subseteq> insert (ioid, dict_set ''terra_level'' (VInt (level n)) d) (set (impact s))"
proof -
  let ?d' = "dict_set ''terra_level'' (VInt (level n)) d"
  from f have m: "matches ''user_id'' (VStr u) (ioid, d)" by (auto simp: find_Some_iff)
  then have m': "matches ''user_id'' (VStr u) (fst (ioid, d), ?d')"
    by (simp add: matches_field dict_get_set)
  from f have f': "find (matches ''user_id'' (VStr u)) (coll_get C_impact s) = Some (ioid, d)" by simp
  have a: "apply_update (level_update (level n)) (snd (ioid, d)) = Inr ?d'"
    by (simp add: apply_level_update)
  from update_one_existing[OF f' a m', of False] obtain imps where
    u: "update_one C_impact ''user_id'' (VStr u) (level_update (level n)) False s
          = (Inr (), s\<lparr>impact := imps\<rparr>)"
    and fi: "find (matches ''user_id'' (VStr u)) imps = Some (ioid, ?d')"
    and sub: "set imps \<subseteq> insert (ioid, ?d') (set (impact s))" by auto
  have vo: "visits_of (to_dict (ioid, d)) = Inr n"
    using v by (simp add: visits_of_def dict_get_to_dict)
  have "recompute_level u s = (Inr [(''impact'', dict_pop ''_id'' ?d')], Some (s\<lparr>impact := imps\<rparr>))"
    using f vo u fi by (simp add: recompute_level_def find_one_impact dict_pop_to_dict)
  with fi sub show ?thesis by blast
qed

lemma valid_businessD:
  assumes "valid_business s b"
  obtains oid bdoc vd where "to_obj_id b = Inr oid"
    and "find_one C_business ''_id'' (VOid oid) s = Some bdoc"
    and "VisitSchema u b (dict_get bdoc ''name'') (dict_get bdoc ''category'')
           (dict_get bdoc ''location'') e = Inr vd"
  using assms
  by (auto simp: valid_business_def is_str_def VisitSchema_def split: sum.splits option.splits val.splits)

lemma find_one_business_cong:
  "business s' = business s \<Longrightarrow> find_one C_business k v s' = find_one C_business k v s"
  by (simp add: find_one_def)

lemma valid_business_cong: "business s' = business s \<Longrightarrow> valid_business s' b = valid_business s b"
  by (simp add: valid_business_def find_one_def split: sum.splits)

lemma find_snoc: "find P xs = None \<Longrightarrow> find P (xs @ [x]) = (if P x then Some x else None)"
  by (induction xs) (auto split: if_splits)

lemma log_visit_existing:
  assumes vb: "valid_business s (vc_business_id p)"
    and f: "find (matches ''user_id'' (VStr (vc_user_id p))) (impact s) = Some (ioid, d)"
    and a: "dict_get d ''visits'' = Some (VInt a)"
    and b: "dict_get d ''eco_points'' = Some (VInt b)"
    and c: "dict_get d ''community_impact'' = Some (VInt c)"
  shows "\<exists>s'. log_visit (Some s) p =
            (Inr [(''impact'', dict_pop ''_id''
                    (dict_set ''terra_level'' (VInt (level (a + 1)))
                      (dict_set ''community_impact'' (VInt (c + 1))
                        (dict_set ''eco_points'' (VInt (b + 10))
                          (dict_set ''visits'' (VInt (a + 1)) d)))))], Some s')
          \<and> find (matches ''user_id'' (VStr (vc_user_id p))) (impact s')
              = Some (ioid, dict_set ''terra_level'' (VInt (level (a + 1)))
                      (dict_set ''community_impact'' (VInt (c + 1))
                        (dict_set ''eco_points'' (VInt (b + 10))
                          (dict_set ''visits'' (VInt (a + 1)) d))))
          \<and> business s' = business s"
proof -
  let ?u = "vc_user_id p"
  let ?d2 = "dict_set ''community_impact'' (VInt (c + 1))
               (dict_set ''eco_points'' (VInt (b + 10)) (dict_set ''visits'' (VInt (a + 1)) d))"
  from vb obtain oid bdoc vd where o: "to_obj_id (vc_business_id p) = Inr oid"
    and fb: "find_one C_business ''_id'' (VOid oid) s = Some bdoc"
    and vs: "VisitSchema ?u (vc_business_id p) (dict_get bdoc ''name'') (dict_get bdoc ''category'')
           (dict_get bdoc ''location'') 10 = Inr vd"
    by (rule valid_businessD)
  define s1 where "s1 = snd (create_document C_visit vd s)"
  have i1: "impact s1 = impact s" and b1: "business s1 = business s"
    by (simp_all add: s1_def create_document_other)
  from f have m: "matches ''user_id'' (VStr ?u) (ioid, d)" by (auto simp: find_Some_iff)
  then have m2: "matches ''user_id'' (VStr ?u) (fst (ioid, d), ?d2)"
    by (simp add: matches_field dict_get_set)
  from f i1 have f1: "find (matches ''user_id'' (VStr ?u)) (coll_get C_impact s1) = Some (ioid, d)"
    by simp
  have au: "apply_update (inc_update p 10) (snd (ioid, d)) = Inr ?d2"
    using apply_inc_update_existing[OF a b c] by simp
  from update_one_existing[OF f1 au m2, of True] obtain imps where
    u: "update_one C_impact ''user_id'' (VStr ?u) (inc_update p 10) True s1
          = (Inr (), s1\<lparr>impact := imps\<rparr>)"
    and fi: "find (matches ''user_id'' (VStr ?u)) imps = Some (ioid, ?d2)" by auto
  have fi': "find (matches ''user_id'' (VStr ?u)) (impact (s1\<lparr>impact := imps\<rparr>)) = Some (ioid, ?d2)"
    using fi by simp
  have v2: "dict_get ?d2 ''visits'' = Some (VInt (a + 1))" by (simp add: dict_get_set)
  from recompute_level_existing[OF fi' v2] obtain imps' where
    r: "recompute_level ?u (s1\<lparr>impact := imps\<rparr>) =
          (Inr [(''impact'', dict_pop ''_id'' (dict_set ''terra_level'' (VInt (level (a + 1))) ?d2))],
           Some (s1\<lparr>impact := imps'\<rparr>))"
    and fr: "find (matches ''user_id'' (VStr ?u)) imps'
              = Some (ioid, dict_set ''terra_level'' (VInt (level (a + 1))) ?d2)" by auto
  have "log_visit (Some s) p =
          (Inr [(''impact'', dict_pop ''_id'' (dict_set ''terra_level'' (VInt (level (a + 1))) ?d2))],
           Some (s1\<lparr>impact := imps'\<rparr>))"
    using o fb vs u r by (simp add: log_visit_def s1_def[symmetric])
  with fr b1 show ?thesis by auto
qed

lemma log_visit_new:
  assumes vb: "valid_business s (vc_business_id p)"
    and f: "find (matches ''user_id'' (VStr (vc_user_id p))) (impact s) = None"
  shows "\<exists>s' ioid. log_visit (Some s) p =
            (Inr [(''impact'',
                   [(''user_id'', VStr (vc_user_id p)), (''username'', VStr (vc_username p)),
                    (''visits'', VInt 1), (''eco_points'', VInt 10), (''community_impact'', VInt 1),
                    (''terra_level'', VInt 0)])], Some s')
          \<and> find (matches ''user_id'' (VStr (vc_user_id p))) (impact s')
              = Some (ioid,
                   [(''user_id'', VStr (vc_user_id p)), (''username'', VStr (vc_username p)),
                    (''visits'', VInt 1), (''eco_points'', VInt 10), (''community_impact'', VInt 1),
                    (''terra_level'', VInt 0)])
          \<and> business s' = business s"
proof -
  let ?u = "vc_user_id p"
  let ?d1 = "[(''user_id'', VStr (vc_user_id p)), (''username'', VStr (vc_username p)),
          (''visits'', VInt 1), (''eco_points'', VInt 10), (''community_impact'', VInt 1)]"
  from vb obtain oid bdoc vd where o: "to_obj_id (vc_business_id p) = Inr oid"
    and fb: "find_one C_business ''_id'' (VOid oid) s = Some bdoc"
    and vs: "VisitSchema ?u (vc_business_id p) (dict_get bdoc ''name'') (dict_get bdoc ''category'')
           (dict_get bdoc ''location'') 10 = Inr vd"
    by (rule valid_businessD)
  define s1 where "s1 = snd (create_document C_visit vd s)"
  have i1: "impact s1 = impact s" and b1: "business s1 = business s"
    by (simp_all add: s1_def create_document_other)
  from f i1 have f1: "find (matches ''user_id'' (VStr ?u)) (coll_get C_impact s1) = None" by simp
  define s2 where "s2 = snd (insert_one C_impact ?d1 s1)"
  have u: "update_one C_impact ''user_id'' (VStr ?u) (inc_update p 10) True s1 = (Inr (), s2)"
    unfolding s2_def by (rule update_one_insert[OF f1 apply_inc_update_new])
  have b2: "business s2 = business s" using b1 by (simp add: s2_def insert_one_def)
  have "matches ''user_id'' (VStr ?u) (new_oid s1, ?d1)"
    by (simp add: matches_field dict_get_def)
  then have f2: "find (matches ''user_id'' (VStr ?u)) (impact s2) = Some (new_oid s1, ?d1)"
    using f i1 by (simp add: s2_def insert_one_def find_snoc)
  have v: "dict_get ?d1 ''visits'' = Some (VInt 1)" by (simp add: dict_get_def)
  from recompute_level_existing[OF f2 v] obtain imps' where
    r: "recompute_level ?u s2 =
          (Inr [(''impact'', dict_pop ''_id'' (dict_set ''terra_level'' (VInt (level 1)) ?d1))],
           Some (s2\<lparr>impact := imps'\<rparr>))"
    and fr: "find (matches ''user_id'' (VStr ?u)) imps'
              = Some (new_oid s1, dict_set ''terra_level'' (VInt (level 1)) ?d1)" by auto
  have e: "dict_set ''terra_level'' (VInt (level 1)) ?d1
         = ?d1 @ [(''terra_level'', VInt 0)]" by (simp add: dict_set_def level_def)
  have e': "dict_pop ''_id'' (?d1 @ [(''terra_level'', VInt 0)]) = ?d1 @ [(''terra_level'', VInt 0)]"
    by (simp add: dict_pop_def)
  have "log_visit (Some s) p = (Inr [(''impact'', ?d1 @ [(''terra_level'', VInt 0)])],
           Some (s2\<lparr>impact := imps'\<rparr>))"
    using o fb vs u r e e' by (simp add: log_visit_def s1_def[symmetric])
  with fr b2 e show ?thesis by auto
qed

lemma apply_set_other: "k \<notin> fst ` set kvs \<Longrightarrow> dict_get (apply_set kvs d) k = dict_get d k"
  by (induction kvs d rule: apply_set.induct) (auto simp: dict_get_set)

lemma apply_inc_other:
  "apply_inc kns d = Inr d' \<Longrightarrow> k \<notin> fst ` set kns \<Longrightarrow> dict_get d' k = dict_get d k"
  by (induction kns d rule: apply_inc.induct) (auto simp: dict_get_set split: option.splits val.splits)

lemma apply_update_other:
  "apply_update u d = Inr d' \<Longrightarrow> k \<notin> fst ` set (u_inc u) \<Longrightarrow> k \<notin> fst ` set (u_set u)
   \<Longrightarrow> dict_get d' k = dict_get d k"
  by (simp add: apply_update_def apply_inc_other apply_set_other)

lemma apply_inc_update_visits:
  "apply_update (inc_update p e) d = Inr d' \<Longrightarrow> \<exists>v. dict_get d' ''visits'' = Some (VInt v)"
  by (auto simp: apply_update_def inc_update_def dict_get_set split: option.splits val.splits)

lemma update_one_keeps:
  assumes f: "find (matches k v) (coll_get c s) = Some sd"
    and u: "update_one c k v u ups s = (r, s')"
    and k: "k \<noteq> ''_id''" "k \<notin> fst ` set (u_inc u)" "k \<notin> fst ` set (u_set u)"
  shows "\<exists>d'. find (matches k v) (coll_get c s') = Some (fst sd, d')
           \<and> (d' = snd sd \<or> apply_update u (snd sd) = Inr d')"
proof (cases "apply_update u (snd sd)")
  case (Inl e)
  from update_first_refused[where f="apply_update u", OF f Inl] u have "s' = s"
    by (simp add: update_one_def)
  with f show ?thesis by (cases sd) auto
next
  case (Inr d')
  from f have "matches k v sd" by (auto simp: find_Some_iff)
  with k apply_update_other[OF Inr, of k] have m: "matches k v (fst sd, d')"
    by (simp add: matches_field)
  from update_one_existing[OF f Inr m, of ups] u Inr show ?thesis
    by (auto simp: coll_get_put)
qed

lemma inc_update_keys:
  "''user_id'' \<notin> fst ` set (u_inc (inc_update p e))" "''user_id'' \<notin> fst ` set (u_set (inc_update p e))"
  "''username'' \<notin> fst ` set (u_inc (inc_update p e))" "''username'' \<notin> fst ` set (u_set (inc_update p e))"
  "''user_id'' \<notin> fst ` set (u_inc (level_update l))" "''user_id'' \<notin> fst ` set (u_set (level_update l))"
  "''username'' \<notin> fst ` set (u_inc (level_update l))" "''username'' \<notin> fst ` set (u_set (level_update l))"
  by (simp_all add: inc_update_def level_update_def)

lemma update_one_inc_visits:
  assumes u: "update_one C_impact ''user_id'' (VStr (vc_user_id p)) (inc_update p e) True s = (Inr (), s')"
  shows "\<exists>ioid d v. find (matches ''user_id'' (VStr (vc_user_id p))) (impact s') = Some (ioid, d)
           \<and> dict_get d ''visits'' = Some (VInt v)"
proof (cases "find (matches ''user_id'' (VStr (vc_user_id p))) (impact s)")
  case None
  then have n: "find (matches ''user_id'' (VStr (vc_user_id p))) (coll_get C_impact s) = None" by simp
  have "matches ''user_id'' (VStr (vc_user_id p)) (new_oid s,
          [(''user_id'', VStr (vc_user_id p)), (''username'', VStr (vc_username p)),
          (''visits'', VInt 1), (''eco_points'', VInt e), (''community_impact'', VInt 1)])"
    by (simp add: matches_field dict_get_def)
  with update_one_insert[OF n apply_inc_update_new] u None show ?thesis
    by (auto simp: insert_one_def find_snoc dict_get_def)
next
  case (Some sd)
  then have f: "find (matches ''user_id'' (VStr (vc_user_id p))) (coll_get C_impact s) = Some sd" by simp
  from update_one_keeps[OF f u _ inc_update_keys(1,2)] obtain d' where
    f': "find (matches ''user_id'' (VStr (vc_user_id p))) (impact s') = Some (fst sd, d')" by auto
  show ?thesis
  proof (cases "apply_update (inc_update p e) (snd sd)")
    case (Inl er)
    from update_first_refused[where f="apply_update (inc_update p e)", OF f Inl] u show ?thesis
      by (simp add: update_one_def)
  next
    case (Inr d2)
    from f have "matches ''user_id'' (VStr (vc_user_id p)) sd" by (auto simp: find_Some_iff)
    with apply_update_other[OF Inr inc_update_keys(1,2)] have m: "matches ''user_id'' (VStr (vc_user_id p)) (fst sd, d2)"
      by (simp add: matches_field)
    from update_one_existing[OF f Inr m, of True] u
    have "find (matches ''user_id'' (VStr (vc_user_id p))) (impact s') = Some (fst sd, d2)"
      by auto
    with apply_inc_update_visits[OF Inr] show ?thesis by auto
  qed
qed


lemma level_mono: "v \<le> w \<Longrightarrow> level v \<le> level w"
  by (simp add: level_def)

lemma log_visit_Inr:
  assumes "log_visit (Some s) p = (Inr r, Some s')"
  shows "\<exists>ioid d v. find (matches ''user_id'' (VStr (vc_user_id p))) (impact s')
                     = Some (ioid, dict_set ''terra_level'' (VInt (level v)) d)
           \<and> dict_get d ''visits'' = Some (VInt v)
           \<and> r = [(''impact'', dict_pop ''_id'' (dict_set ''terra_level'' (VInt (level v)) d))]"
proof -
  from assms obtain vd where
    r: "(case update_one C_impact ''user_id'' (VStr (vc_user_id p)) (inc_update p 10) True
               (snd (create_document C_visit vd s)) of
          (Inl e, s2) \<Rightarrow> (Inl e, Some s2)
        | (Inr _, s2) \<Rightarrow> recompute_level (vc_user_id p) s2) = (Inr r, Some s')"
    by (auto simp: log_visit_def split: sum.splits option.splits)
  then obtain s2 where
    u: "update_one C_impact ''user_id'' (VStr (vc_user_id p)) (inc_update p 10) True
          (snd (create_document C_visit vd s)) = (Inr (), s2)"
    and rl: "recompute_level (vc_user_id p) s2 = (Inr r, Some s')"
    by (auto split: prod.splits sum.splits)
  from update_one_inc_visits[OF u] obtain ioid d v where
    f: "find (matches ''user_id'' (VStr (vc_user_id p))) (impact s2) = Some (ioid, d)"
    and v: "dict_get d ''visits'' = Some (VInt v)" by blast
  from recompute_level_existing[OF f v] rl obtain imps where
    "s' = s2\<lparr>impact := imps\<rparr>"
    and "r = [(''impact'', dict_pop ''_id'' (dict_set ''terra_level'' (VInt (level v)) d))]"
    and "find (matches ''user_id'' (VStr (vc_user_id p))) imps
           = Some (ioid, dict_set ''terra_level'' (VInt (level v)) d)" by auto
  with v show ?thesis
    by (intro exI[of _ ioid] exI[of _ d] exI[of _ v]) simp
qed

text \<open>
  C2. The tier recomputed by \<open>log_visit\<close> follows the tier table on every non-negative
  visits count (level 0 below 3, level 1 from 3 to 9, level 2 from 10 to 19, level 3 from
  20 on), is monotonic, and after a completed \<open>log_visit\<close> the persisted \<open>terra_level\<close>
  of the user's Impact record is the tier of its persisted \<open>visits\<close>; that record is the
  one returned.
\<close>

theorem level_is_tier_of_visits:
  "(\<forall>v\<ge>0. level v = (if v < 3 then 0 else if v < 10 then 1 else if v < 20 then 2 else 3))
   \<and> (\<forall>v w. v \<le> w \<longrightarrow> level v \<le> level w)
   \<and> (\<forall>s p r s'. log_visit (Some s) p = (Inr r, Some s') \<longrightarrow>
        (\<exists>imp v. find_one C_impact ''user_id'' (VStr (vc_user_id p)) s' = Some imp
           \<and> dict_get imp ''visits'' = Some (VInt v)
           \<and> dict_get imp ''terra_level'' = Some (VInt (level v))
           \<and> r = [(''impact'', dict_pop ''_id'' imp)]))"
proof (intro conjI allI impI ballI)
  fix v :: int
  show "level v = (if v < 3 then 0 else if v < 10 then 1 else if v < 20 then 2 else 3)"
    by (simp add: level_def)
next
  fix v w :: int
  assume "v \<le> w"
  then show "level v \<le> level w" by (rule level_mono)
next
  fix s p r s'
  assume "log_visit (Some s) p = (Inr r, Some s')"
  from log_visit_Inr[OF this] obtain ioid d v where
    f: "find (matches ''user_id'' (VStr (vc_user_id p))) (impact s')
          = Some (ioid, dict_set ''terra_level'' (VInt (level v)) d)"
    and v: "dict_get d ''visits'' = Some (VInt v)"
    and r: "r = [(''impact'', dict_pop ''_id'' (dict_set ''terra_level'' (VInt (level v)) d))]"
    by blast
  let ?imp = "to_dict (ioid, dict_set ''terra_level'' (VInt (level v)) d)"
  have "find_one C_impact ''user_id'' (VStr (vc_user_id p)) s' = Some ?imp"
    using f by (simp add: find_one_impact)
  moreover have "dict_get ?imp ''visits'' = Some (VInt v)"
    using v by (simp add: dict_get_to_dict dict_get_set)
  moreover have "dict_get ?imp ''terra_level'' = Some (VInt (level v))"
    by (simp add: dict_get_to_dict dict_get_set)
  moreover have "r = [(''impact'', dict_pop ''_id'' ?imp)]"
    using r by (simp add: dict_pop_to_dict)
  ultimately show "\<exists>imp v. find_one C_impact ''user_id'' (VStr (vc_user_id p)) s' = Some imp
           \<and> dict_get imp ''visits'' = Some (VInt v)
           \<and> dict_get imp ''terra_level'' = Some (VInt (level v))
           \<and> r = [(''impact'', dict_pop ''_id'' imp)]" by blast
qed

lemma seeded_valid: "valid_business seeded ''000000000000000000000000''"
  by code_simp

lemma seeded_no_impact: "find_one C_impact ''user_id'' (VStr ''u1'') seeded = None"
  by code_simp

lemma recompute_level_keeps:
  assumes f: "find (matches ''user_id'' (VStr u)) (impact s) = Some (ioid, d)"
    and r: "recompute_level u s = (r, Some s')"
  shows "\<exists>d'. find (matches ''user_id'' (VStr u)) (impact s') = Some (ioid, d')
           \<and> dict_get d' ''username'' = dict_get d ''username''"
proof (cases "visits_of (to_dict (ioid, d))")
  case (Inl e)
  with f r have "s' = s" by (simp add: recompute_level_def find_one_impact)
  with f show ?thesis by auto
next
  case (Inr v)
  obtain r0 s3 where
    u: "update_one C_impact ''user_id'' (VStr u) (level_update (level v)) False s = (r0, s3)"
    by (cases "update_one C_impact ''user_id'' (VStr u) (level_update (level v)) False s")
  from f have f': "find (matches ''user_id'' (VStr u)) (coll_get C_impact s) = Some (ioid, d)" by simp
  from update_one_keeps[OF f' u _ inc_update_keys(5,6)] obtain d' where
    f3: "find (matches ''user_id'' (VStr u)) (impact s3) = Some (ioid, d')"
    and d': "d' = d \<or> apply_update (level_update (level v)) d = Inr d'" by auto
  from d' have "dict_get d' ''username'' = dict_get d ''username''"
    using apply_update_other[OF _ inc_update_keys(7,8)] by auto
  moreover from r f Inr u have "s' = s3"
    by (auto simp: recompute_level_def find_one_impact split: sum.splits option.splits)
  ultimately show ?thesis using f3 by auto
qed

lemma log_visit_keeps:
  assumes f: "find (matches ''user_id'' (VStr (vc_user_id p))) (impact s) = Some (ioid, d)"
    and lv: "log_visit (Some s) p = (r, Some s')"
  shows "\<exists>d'. find (matches ''user_id'' (VStr (vc_user_id p))) (impact s') = Some (ioid, d')
           \<and> dict_get d' ''username'' = dict_get d ''username''"
proof -
  let ?u = "vc_user_id p"
  consider (same) "s' = s"
    | (upd) vd where "(case update_one C_impact ''user_id'' (VStr ?u) (inc_update p 10) True
               (snd (create_document C_visit vd s)) of
          (Inl e, s2) \<Rightarrow> (Inl e, Some s2)
        | (Inr _, s2) \<Rightarrow> recompute_level ?u s2) = (r, Some s')"
    using lv by (auto simp: log_visit_def split: sum.splits option.splits)
  then show ?thesis
  proof cases
    case same
    with f show ?thesis by auto
  next
    case upd
    define s1 where "s1 = snd (create_document C_visit vd s)"
    obtain r0 s2 where
      u: "update_one C_impact ''user_id'' (VStr ?u) (inc_update p 10) True s1 = (r0, s2)"
      by (cases "update_one C_impact ''user_id'' (VStr ?u) (inc_update p 10) True s1")
    from f have f1: "find (matches ''user_id'' (VStr ?u)) (coll_get C_impact s1) = Some (ioid, d)"
      by (simp add: s1_def create_document_other)
    from update_one_keeps[OF f1 u _ inc_update_keys(1,2)] obtain d2 where
      f2: "find (matches ''user_id'' (VStr ?u)) (impact s2) = Some (ioid, d2)"
      and d2: "d2 = d \<or> apply_update (inc_update p 10) d = Inr d2" by auto
    from d2 have n2: "dict_get d2 ''username'' = dict_get d ''username''"
      using apply_update_other[OF _ inc_update_keys(3,4)] by auto
    show ?thesis
    proof (cases r0)
      case (Inl e)
      with upd u have "s' = s2" by (simp add: s1_def)
      with f2 n2 show ?thesis by auto
    next
      case (Inr x)
      with upd u have "recompute_level ?u s2 = (r, Some s')" by (simp add: s1_def)
      from recompute_level_keeps[OF f2 this] n2 show ?thesis by auto
    qed
  qed
qed


theorem level_is_tier_of_visits_witness:
  "(0::int) \<le> 0 \<and> level 0 = 0 \<and> level 2 = 0 \<and> level 3 = 1 \<and> level 9 = 1 \<and> level 10 = 2
   \<and> level 19 = 2 \<and> level 20 = 3 \<and> level 1000 = 3 \<and> level 9 \<le> level 10
   \<and> (\<exists>r s'. log_visit (Some seeded) (visit_by ''alice'' ''000000000000000000000000'')
                 = (Inr r, Some s')
        \<and> (\<exists>imp. find_one C_impact ''user_id'' (VStr ''u1'') s' = Some imp
              \<and> dict_get imp ''visits'' = Some (VInt 1)
              \<and> dict_get imp ''terra_level'' = Some (VInt 0)
              \<and> r = [(''impact'', dict_pop ''_id'' imp)]))"
proof -
  note t = level_is_tier_of_visits
  from t have tab: "\<And>v. 0 \<le> v \<Longrightarrow>
      level v = (if v < 3 then 0 else if v < 10 then 1 else if v < 20 then 2 else 3)" by blast
  from t have mono: "level 9 \<le> level 10" by simp
  obtain r s' where
    lv: "log_visit (Some seeded) (visit_by ''alice'' ''000000000000000000000000'') = (Inr r, Some s')"
    and r: "r = [(''impact'', [(''user_id'', VStr ''u1''), (''username'', VStr ''alice''),
         (''visits'', VInt 1), (''eco_points'', VInt 10),
         (''community_impact'', VInt 1), (''terra_level'', VInt 0)])]"
    using log_visit_new[OF _ _, of seeded "visit_by ''alice'' ''000000000000000000000000''"]
      seeded_valid seeded_no_impact
    by (auto simp: visit_by_def find_one_impact)
  from t have inv: "\<And>s p r s'. log_visit (Some s) p = (Inr r, Some s') \<Longrightarrow>
        (\<exists>imp v. find_one C_impact ''user_id'' (VStr (vc_user_id p)) s' = Some imp
           \<and> dict_get imp ''visits'' = Some (VInt v)
           \<and> dict_get imp ''terra_level'' = Some (VInt (level v))
           \<and> r = [(''impact'', dict_pop ''_id'' imp)])" by blast
  have uid: "vc_user_id (visit_by ''alice'' ''000000000000000000000000'') = ''u1''"
    by (simp add: visit_by_def)
  from inv[OF lv] obtain imp v where
    i: "find_one C_impact ''user_id'' (VStr ''u1'') s' = Some imp"
    "dict_get imp ''visits'' = Some (VInt v)" "dict_get imp ''terra_level'' = Some (VInt (level v))"
    "r = [(''impact'', dict_pop ''_id'' imp)]"
    unfolding uid by blast
  have "dict_get (dict_pop ''_id'' imp) ''visits'' = Some (VInt v)"
    using i(2) by (simp add: dict_get_pop)
  moreover have "dict_pop ''_id'' imp = [(''user_id'', VStr ''u1''), (''username'', VStr ''alice''),
         (''visits'', VInt 1), (''eco_points'', VInt 10),
         (''community_impact'', VInt 1), (''terra_level'', VInt 0)]"
    using i(4) r by simp
  ultimately have "v = 1" by (simp add: dict_get_def)
  with i lv show ?thesis using tab[of 0] tab[of 2] tab[of 3] tab[of 9] tab[of 10] tab[of 19] tab[of 20] tab[of 1000] mono
    by (auto simp: level_def)
qed

text \<open>
  C3 (as the code has it). A \<open>log_visit\<close> whose business id is accepted by \<open>ObjectId\<close>
  (24 characters that parse as hexadecimal bytes) and is the id of no stored business
  fails with 404 and leaves the store as it was; a business id that \<open>ObjectId\<close> rejects
  fails with 400, the store unchanged as well.
\<close>

theorem log_visit_unknown_business:
  "(to_obj_id (vc_business_id p) = Inr oid \<and> find_one C_business ''_id'' (VOid oid) s = None
      \<longrightarrow> log_visit (Some s) p = (Inl (HTTPException 404 ''Business not found''), Some s))
   \<and> (ObjectId (vc_business_id p') = None
      \<longrightarrow> log_visit (Some s) p' = (Inl (HTTPException 400 ''Invalid id''), Some s))"
  by (simp add: log_visit_def to_obj_id_def)

theorem log_visit_unknown_business_witness:
  "to_obj_id ''00000000000000000000000A'' = Inr ''00000000000000000000000a''
   \<and> find_one C_business ''_id'' (VOid ''00000000000000000000000a'') seeded = None
   \<and> log_visit (Some seeded) (visit_by ''alice'' ''00000000000000000000000A'')
       = (Inl (HTTPException 404 ''Business not found''), Some seeded)
   \<and> to_obj_id ''00 00 00 00 00 00 00 00 '' = Inr ''0000000000000000''
   \<and> find_one C_business ''_id'' (VOid ''0000000000000000'') seeded = None
   \<and> log_visit (Some seeded) (visit_by ''alice'' ''00 00 00 00 00 00 00 00 '')
       = (Inl (HTTPException 404 ''Business not found''), Some seeded)
   \<and> ObjectId ''nope'' = None
   \<and> log_visit (Some seeded) (visit_by ''alice'' ''nope'')
       = (Inl (HTTPException 400 ''Invalid id''), Some seeded)
   \<and> ObjectId ''0 0000000000000000000000'' = None
   \<and> log_visit (Some seeded) (visit_by ''alice'' ''0 0000000000000000000000'')
       = (Inl (HTTPException 400 ''Invalid id''), Some seeded)"
proof -
  have a: "to_obj_id ''00000000000000000000000A'' = Inr ''00000000000000000000000a''" by code_simp
  have b: "find_one C_business ''_id'' (VOid ''00000000000000000000000a'') seeded = None" by code_simp
  have c: "ObjectId ''nope'' = None" by code_simp
  have d: "to_obj_id ''00 00 00 00 00 00 00 00 '' = Inr ''0000000000000000''" by code_simp
  have e: "find_one C_business ''_id'' (VOid ''0000000000000000'') seeded = None" by code_simp
  have f: "ObjectId ''0 0000000000000000000000'' = None" by code_simp
  from a b c d e f show ?thesis
    using log_visit_unknown_business[of "visit_by ''alice'' ''00000000000000000000000A''"
        "''00000000000000000000000a''" seeded "visit_by ''alice'' ''nope''"]
      log_visit_unknown_business[of "visit_by ''alice'' ''00 00 00 00 00 00 00 00 ''"
        "''0000000000000000''" seeded "visit_by ''alice'' ''0 0000000000000000000000''"]
    by (simp add: visit_by_def)
qed

theorem log_visit_unknown_business_counterexample:
  "map fst (business seeded) = [''000000000000000000000000'']
   \<and> log_visit (Some seeded) (visit_by ''alice'' ''nope'')
       = (Inl (HTTPException 400 ''Invalid id''), Some seeded)"
  by code_simp

text \<open>
  C4 (as the code has it). When no database is configured (\<open>db\<close> is \<open>None\<close>),
  \<open>log_visit\<close> fails with 500, and so does the lookup of one business; \<open>get_impact\<close>
  answers a zero-valued Impact for the user that is stored nowhere, with the username of
  the call when one is given and is not empty, and Guest otherwise; the listings of
  businesses and of a user's visits are empty.
\<close>

theorem no_database:
  "log_visit None p = (Inl (HTTPException 500 ''Database not available''), None)
   \<and> get_business None business_id = Inl (HTTPException 500 ''Database not available'')
   \<and> get_impact None user_id username
       = (Inr [(''user_id'', VStr user_id),
               (''username'',
                VStr (case username of
                        None \<Rightarrow> ''Guest''
                      | Some name \<Rightarrow> if name = [] then ''Guest'' else name)),
               (''visits'', VInt 0), (''eco_points'', VInt 0), (''community_impact'', VInt 0),
               (''terra_level'', VInt 0)], None)
   \<and> get_impact None user_id (Some ''alice'')
       = (Inr [(''user_id'', VStr user_id), (''username'', VStr ''alice''), (''visits'', VInt 0),
               (''eco_points'', VInt 0), (''community_impact'', VInt 0),
               (''terra_level'', VInt 0)], None)
   \<and> list_businesses regex_i None search category = Inr []
   \<and> get_user_visits None user_id = Inr []"
  by (simp add: log_visit_def get_business_def get_impact_def ImpactSchema_def
      list_businesses_def get_user_visits_def username_or_guest_def)

theorem no_database_counterexample:
  "get_impact None ''u1'' None
     = (Inr [(''user_id'', VStr ''u1''), (''username'', VStr ''Guest''), (''visits'', VInt 0),
             (''eco_points'', VInt 0), (''community_impact'', VInt 0), (''terra_level'', VInt 0)],
        None)"
  by code_simp

lemma find_one_impact_Some:
  "find (matches k v) (impact s) = Some (ioid, d)
   \<Longrightarrow> find_one C_impact k v s = Some ((''_id'', VOid ioid) # d)"
  by (simp add: find_one_impact to_dict_def)

lemma find_one_impact_None:
  "(find_one C_impact k v s = None) = (find (matches k v) (impact s) = None)"
  by (simp add: find_one_impact)

text \<open>
  C1. From a store with a valid business B and no Impact record for user U, three
  successive \<open>log_visit\<close> calls for U as alice at B all succeed; the third returns the
  Impact record of U, which is persisted with username alice, visits 3, eco_points 30,
  community_impact 3 and terra_level 1.
\<close>

theorem three_visits:
  assumes "valid_business s b"
    and "find_one C_impact ''user_id'' (VStr u) s = None"
  shows "\<exists>r1 s1 r2 s2 s3 ioid.
           log_visit (Some s) \<lparr>vc_user_id = u, vc_username = ''alice'', vc_business_id = b\<rparr>
             = (Inr r1, Some s1)
         \<and> log_visit (Some s1) \<lparr>vc_user_id = u, vc_username = ''alice'', vc_business_id = b\<rparr>
             = (Inr r2, Some s2)
         \<and> log_visit (Some s2) \<lparr>vc_user_id = u, vc_username = ''alice'', vc_business_id = b\<rparr>
             = (Inr [(''impact'',
                      [(''user_id'', VStr u), (''username'', VStr ''alice''), (''visits'', VInt 3),
                       (''eco_points'', VInt 30), (''community_impact'', VInt 3),
                       (''terra_level'', VInt 1)])], Some s3)
         \<and> find_one C_impact ''user_id'' (VStr u) s3
             = Some [(''_id'', VOid ioid), (''user_id'', VStr u), (''username'', VStr ''alice''),
                     (''visits'', VInt 3), (''eco_points'', VInt 30),
                     (''community_impact'', VInt 3), (''terra_level'', VInt 1)]"
proof -
  let ?p = "\<lparr>vc_user_id = u, vc_username = ''alice'', vc_business_id = b\<rparr>"
  let ?d1 = "[(''user_id'', VStr u), (''username'', VStr ''alice''), (''visits'', VInt 1),
              (''eco_points'', VInt 10), (''community_impact'', VInt 1), (''terra_level'', VInt 0)]"
  let ?d2 = "[(''user_id'', VStr u), (''username'', VStr ''alice''), (''visits'', VInt 2),
              (''eco_points'', VInt 20), (''community_impact'', VInt 2), (''terra_level'', VInt 0)]"
  let ?d3 = "[(''user_id'', VStr u), (''username'', VStr ''alice''), (''visits'', VInt 3),
              (''eco_points'', VInt 30), (''community_impact'', VInt 3), (''terra_level'', VInt 1)]"
  have vb: "valid_business s (vc_business_id ?p)" using assms(1) by simp
  have nf: "find (matches ''user_id'' (VStr (vc_user_id ?p))) (impact s) = None"
    using assms(2) by (simp add: find_one_impact_None)
  from log_visit_new[OF vb nf] obtain s1 ioid where
    l1: "log_visit (Some s) ?p = (Inr [(''impact'', ?d1)], Some s1)"
    and f1: "find (matches ''user_id'' (VStr (vc_user_id ?p))) (impact s1) = Some (ioid, ?d1)"
    and b1: "business s1 = business s" by auto
  have vb1: "valid_business s1 (vc_business_id ?p)" using vb valid_business_cong[OF b1] by simp
  have e2: "dict_set ''terra_level'' (VInt (level (1 + 1)))
             (dict_set ''community_impact'' (VInt (1 + 1))
               (dict_set ''eco_points'' (VInt (10 + 10)) (dict_set ''visits'' (VInt (1 + 1)) ?d1))) = ?d2"
    by (simp add: dict_set_def level_def)
  have p2: "dict_pop ''_id'' ?d2 = ?d2" by (simp add: dict_pop_def)
  from log_visit_existing[OF vb1 f1, of 1 10 1] obtain s2 where
    l2: "log_visit (Some s1) ?p = (Inr [(''impact'', ?d2)], Some s2)"
    and f2: "find (matches ''user_id'' (VStr (vc_user_id ?p))) (impact s2) = Some (ioid, ?d2)"
    and b2: "business s2 = business s1"
    unfolding e2 p2 by (auto simp: dict_get_def)
  have vb2: "valid_business s2 (vc_business_id ?p)" using vb1 valid_business_cong[OF b2] by simp
  have e3: "dict_set ''terra_level'' (VInt (level (2 + 1)))
             (dict_set ''community_impact'' (VInt (2 + 1))
               (dict_set ''eco_points'' (VInt (20 + 10)) (dict_set ''visits'' (VInt (2 + 1)) ?d2))) = ?d3"
    by (simp add: dict_set_def level_def)
  have p3: "dict_pop ''_id'' ?d3 = ?d3" by (simp add: dict_pop_def)
  from log_visit_existing[OF vb2 f2, of 2 20 2] obtain s3 where
    l3: "log_visit (Some s2) ?p = (Inr [(''impact'', ?d3)], Some s3)"
    and f3: "find (matches ''user_id'' (VStr (vc_user_id ?p))) (impact s3) = Some (ioid, ?d3)"
    unfolding e3 p3 by (auto simp: dict_get_def)
  from f3 have "find_one C_impact ''user_id'' (VStr u) s3 = Some ((''_id'', VOid ioid) # ?d3)"
    by (simp add: find_one_impact_Some)
  with l1 l2 l3 show ?thesis by blast
qed

theorem three_visits_witness:
  "valid_business seeded ''000000000000000000000000''
   \<and> find_one C_impact ''user_id'' (VStr ''u1'') seeded = None
   \<and> fst (log_visit (snd (log_visit (snd (log_visit (Some seeded)
            (visit_by ''alice'' ''000000000000000000000000'')))
            (visit_by ''alice'' ''000000000000000000000000'')))
            (visit_by ''alice'' ''000000000000000000000000''))
      = Inr [(''impact'',
              [(''user_id'', VStr ''u1''), (''username'', VStr ''alice''), (''visits'', VInt 3),
               (''eco_points'', VInt 30), (''community_impact'', VInt 3),
               (''terra_level'', VInt 1)])]"
proof -
  have a: "valid_business seeded ''000000000000000000000000''" by code_simp
  have b: "find_one C_impact ''user_id'' (VStr ''u1'') seeded = None" by code_simp
  from three_visits[OF a b] a b show ?thesis by (auto simp: visit_by_def)
qed

text \<open>
  C5. The username of an existing Impact record is never overwritten by \<open>log_visit\<close>:
  whatever the call's username and outcome, the user's record keeps its identity and its
  username; when the counters of the record are integers and the business is valid, the
  call succeeds and adds 1 to visits, 10 to eco_points and 1 to community_impact. From a
  store with no record for U, a visit as alice followed by a visit as bob leaves the
  username alice, with the counters of two visits.
\<close>

theorem username_first_write_wins:
  "(\<forall>s p imp r s'.
      find_one C_impact ''user_id'' (VStr (vc_user_id p)) s = Some imp
      \<and> log_visit (Some s) p = (r, Some s')
      \<longrightarrow> (\<exists>imp'. find_one C_impact ''user_id'' (VStr (vc_user_id p)) s' = Some imp'
             \<and> dict_get imp' ''username'' = dict_get imp ''username''
             \<and> dict_get imp' ''_id'' = dict_get imp ''_id''))
   \<and> (\<forall>s p imp a b c.
      valid_business s (vc_business_id p)
      \<and> find_one C_impact ''user_id'' (VStr (vc_user_id p)) s = Some imp
      \<and> dict_get imp ''visits'' = Some (VInt a) \<and> dict_get imp ''eco_points'' = Some (VInt b)
      \<and> dict_get imp ''community_impact'' = Some (VInt c)
      \<longrightarrow> (\<exists>r s' imp'. log_visit (Some s) p = (Inr r, Some s')
             \<and> find_one C_impact ''user_id'' (VStr (vc_user_id p)) s' = Some imp'
             \<and> dict_get imp' ''username'' = dict_get imp ''username''
             \<and> dict_get imp' ''visits'' = Some (VInt (a + 1))
             \<and> dict_get imp' ''eco_points'' = Some (VInt (b + 10))
             \<and> dict_get imp' ''community_impact'' = Some (VInt (c + 1))))
   \<and> (\<forall>s u b.
      valid_business s b \<and> find_one C_impact ''user_id'' (VStr u) s = None
      \<longrightarrow> (\<exists>r1 s1 r2 s2 ioid.
             log_visit (Some s) \<lparr>vc_user_id = u, vc_username = ''alice'', vc_business_id = b\<rparr>
               = (Inr r1, Some s1)
           \<and> log_visit (Some s1) \<lparr>vc_user_id = u, vc_username = ''bob'', vc_business_id = b\<rparr>
               = (Inr r2, Some s2)
           \<and> find_one C_impact ''user_id'' (VStr u) s2
               = Some [(''_id'', VOid ioid), (''user_id'', VStr u), (''username'', VStr ''alice''),
                       (''visits'', VInt 2), (''eco_points'', VInt 20),
                       (''community_impact'', VInt 2), (''terra_level'', VInt 0)]))"
proof (intro conjI allI impI; (elim conjE)?)
  fix s p imp r s'
  assume f: "find_one C_impact ''user_id'' (VStr (vc_user_id p)) s = Some imp"
    and lv: "log_visit (Some s) p = (r, Some s')"
  from f obtain ioid d where
    fd: "find (matches ''user_id'' (VStr (vc_user_id p))) (impact s) = Some (ioid, d)"
    and imp: "imp = to_dict (ioid, d)"
    by (auto simp: find_one_impact)
  from log_visit_keeps[OF fd lv] obtain d' where
    fd': "find (matches ''user_id'' (VStr (vc_user_id p))) (impact s') = Some (ioid, d')"
    and n: "dict_get d' ''username'' = dict_get d ''username''" by blast
  have "find_one C_impact ''user_id'' (VStr (vc_user_id p)) s' = Some (to_dict (ioid, d'))"
    using fd' by (simp add: find_one_impact)
  moreover have "dict_get (to_dict (ioid, d')) ''username'' = dict_get imp ''username''"
    using n imp by (simp add: dict_get_to_dict)
  moreover have "dict_get (to_dict (ioid, d')) ''_id'' = dict_get imp ''_id''"
    using imp by (simp add: dict_get_to_dict)
  ultimately show "\<exists>imp'. find_one C_impact ''user_id'' (VStr (vc_user_id p)) s' = Some imp'
             \<and> dict_get imp' ''username'' = dict_get imp ''username''
             \<and> dict_get imp' ''_id'' = dict_get imp ''_id''" by blast
next
  fix s :: store and p :: VisitCreate and imp :: doc and a b c :: int
  assume vb: "valid_business s (vc_business_id p)"
    and f: "find_one C_impact ''user_id'' (VStr (vc_user_id p)) s = Some imp"
    and a: "dict_get imp ''visits'' = Some (VInt a)"
    and b: "dict_get imp ''eco_points'' = Some (VInt b)"
    and c: "dict_get imp ''community_impact'' = Some (VInt c)"
  from f obtain ioid d where
    fd: "find (matches ''user_id'' (VStr (vc_user_id p))) (impact s) = Some (ioid, d)"
    and imp: "imp = to_dict (ioid, d)"
    by (auto simp: find_one_impact)
  from a b c imp have a': "dict_get d ''visits'' = Some (VInt a)"
    and b': "dict_get d ''eco_points'' = Some (VInt b)"
    and c': "dict_get d ''community_impact'' = Some (VInt c)"
    by (simp_all add: dict_get_to_dict)
  let ?d' = "dict_set ''terra_level'' (VInt (level (a + 1)))
               (dict_set ''community_impact'' (VInt (c + 1))
                 (dict_set ''eco_points'' (VInt (b + 10)) (dict_set ''visits'' (VInt (a + 1)) d)))"
  from log_visit_existing[OF vb fd a' b' c'] obtain s' where
    lv: "log_visit (Some s) p = (Inr [(''impact'', dict_pop ''_id'' ?d')], Some s')"
    and fd': "find (matches ''user_id'' (VStr (vc_user_id p))) (impact s') = Some (ioid, ?d')"
    by blast
  have "find_one C_impact ''user_id'' (VStr (vc_user_id p)) s' = Some (to_dict (ioid, ?d'))"
    using fd' by (simp add: find_one_impact)
  moreover have "dict_get (to_dict (ioid, ?d')) ''username'' = dict_get imp ''username''"
    using imp by (simp add: dict_get_to_dict dict_get_set)
  moreover have "dict_get (to_dict (ioid, ?d')) ''visits'' = Some (VInt (a + 1))"
    "dict_get (to_dict (ioid, ?d')) ''eco_points'' = Some (VInt (b + 10))"
    "dict_get (to_dict (ioid, ?d')) ''community_impact'' = Some (VInt (c + 1))"
    by (simp_all add: dict_get_to_dict dict_get_set)
  ultimately show "\<exists>r s' imp'. log_visit (Some s) p = (Inr r, Some s')
             \<and> find_one C_impact ''user_id'' (VStr (vc_user_id p)) s' = Some imp'
             \<and> dict_get imp' ''username'' = dict_get imp ''username''
             \<and> dict_get imp' ''visits'' = Some (VInt (a + 1))
             \<and> dict_get imp' ''eco_points'' = Some (VInt (b + 10))
             \<and> dict_get imp' ''community_impact'' = Some (VInt (c + 1))"
    using lv by blast
next
  fix s u b
  assume vb0: "valid_business s b" and nf0: "find_one C_impact ''user_id'' (VStr u) s = None"
  let ?p = "\<lparr>vc_user_id = u, vc_username = ''alice'', vc_business_id = b\<rparr>"
  let ?q = "\<lparr>vc_user_id = u, vc_username = ''bob'', vc_business_id = b\<rparr>"
  let ?d1 = "[(''user_id'', VStr u), (''username'', VStr ''alice''), (''visits'', VInt 1),
              (''eco_points'', VInt 10), (''community_impact'', VInt 1), (''terra_level'', VInt 0)]"
  let ?d2 = "[(''user_id'', VStr u), (''username'', VStr ''alice''), (''visits'', VInt 2),
              (''eco_points'', VInt 20), (''community_impact'', VInt 2), (''terra_level'', VInt 0)]"
  have vb: "valid_business s (vc_business_id ?p)" using vb0 by simp
  have nf: "find (matches ''user_id'' (VStr (vc_user_id ?p))) (impact s) = None"
    using nf0 by (simp add: find_one_impact_None)
  from log_visit_new[OF vb nf] obtain s1 ioid where
    l1: "log_visit (Some s) ?p = (Inr [(''impact'', ?d1)], Some s1)"
    and f1: "find (matches ''user_id'' (VStr u)) (impact s1) = Some (ioid, ?d1)"
    and b1: "business s1 = business s" by auto
  have vb1: "valid_business s1 (vc_business_id ?q)" using vb0 valid_business_cong[OF b1] by simp
  have f1': "find (matches ''user_id'' (VStr (vc_user_id ?q))) (impact s1) = Some (ioid, ?d1)"
    using f1 by simp
  have e2: "dict_set ''terra_level'' (VInt (level (1 + 1)))
             (dict_set ''community_impact'' (VInt (1 + 1))
               (dict_set ''eco_points'' (VInt (10 + 10)) (dict_set ''visits'' (VInt (1 + 1)) ?d1))) = ?d2"
    by (simp add: dict_set_def level_def)
  from log_visit_existing[OF vb1 f1', of 1 10 1] obtain s2 r2 where
    l2: "log_visit (Some s1) ?q = (Inr r2, Some s2)"
    and f2: "find (matches ''user_id'' (VStr u)) (impact s2) = Some (ioid, ?d2)"
    unfolding e2 by (auto simp: dict_get_def)
  from f2 have "find_one C_impact ''user_id'' (VStr u) s2 = Some ((''_id'', VOid ioid) # ?d2)"
    by (simp add: find_one_impact_Some)
  with l1 l2 show "\<exists>r1 s1 r2 s2 ioid.
             log_visit (Some s) ?p = (Inr r1, Some s1)
           \<and> log_visit (Some s1) ?q = (Inr r2, Some s2)
           \<and> find_one C_impact ''user_id'' (VStr u) s2
               = Some [(''_id'', VOid ioid), (''user_id'', VStr u), (''username'', VStr ''alice''),
                       (''visits'', VInt 2), (''eco_points'', VInt 20),
                       (''community_impact'', VInt 2), (''terra_level'', VInt 0)]" by blast
qed



lemma alice_visited_valid: "valid_business alice_visited ''000000000000000000000000''"
  by code_simp

lemma alice_visited_record:
  "find_one C_impact ''user_id'' (VStr ''u1'') alice_visited
   = Some [(''_id'', VOid ''000000000000000000000002''), (''user_id'', VStr ''u1''),
           (''username'', VStr ''alice''), (''visits'', VInt 1), (''eco_points'', VInt 10),
           (''community_impact'', VInt 1), (''terra_level'', VInt 0)]"
  by code_simp

theorem username_first_write_wins_witness:
  "valid_business seeded ''000000000000000000000000''
   \<and> find_one C_impact ''user_id'' (VStr ''u1'') seeded = None
   \<and> (\<exists>r1 s1 r2 s2 ioid.
         log_visit (Some seeded)
           \<lparr>vc_user_id = ''u1'', vc_username = ''alice'', vc_business_id = ''000000000000000000000000''\<rparr>
           = (Inr r1, Some s1)
       \<and> log_visit (Some s1)
           \<lparr>vc_user_id = ''u1'', vc_username = ''bob'', vc_business_id = ''000000000000000000000000''\<rparr>
           = (Inr r2, Some s2)
       \<and> find_one C_impact ''user_id'' (VStr ''u1'') s2
           = Some [(''_id'', VOid ioid), (''user_id'', VStr ''u1''), (''username'', VStr ''alice''),
                   (''visits'', VInt 2), (''eco_points'', VInt 20),
                   (''community_impact'', VInt 2), (''terra_level'', VInt 0)])
   \<and> valid_business alice_visited ''000000000000000000000000''
   \<and> (\<exists>r s' imp'.
         log_visit (Some alice_visited) (visit_by ''bob'' ''000000000000000000000000'') = (Inr r, Some s')
       \<and> find_one C_impact ''user_id'' (VStr ''u1'') s' = Some imp'
       \<and> dict_get imp' ''username'' = Some (VStr ''alice'')
       \<and> dict_get imp' ''_id'' = Some (VOid ''000000000000000000000002'')
       \<and> dict_get imp' ''visits'' = Some (VInt 2)
       \<and> dict_get imp' ''eco_points'' = Some (VInt 20)
       \<and> dict_get imp' ''community_impact'' = Some (VInt 2))"
proof -
  note t = username_first_write_wins
  let ?b = "''000000000000000000000000''"
  let ?rec = "[(''_id'', VOid ''000000000000000000000002''), (''user_id'', VStr ''u1''),
           (''username'', VStr ''alice''), (''visits'', VInt 1), (''eco_points'', VInt 10),
           (''community_impact'', VInt 1), (''terra_level'', VInt 0)]"
  have uid: "vc_user_id (visit_by ''bob'' ?b) = ''u1''" "vc_business_id (visit_by ''bob'' ?b) = ?b"
    by (simp_all add: visit_by_def)
  from t have scen: "\<And>s u b. valid_business s b \<Longrightarrow> find_one C_impact ''user_id'' (VStr u) s = None
      \<Longrightarrow> (\<exists>r1 s1 r2 s2 ioid.
             log_visit (Some s) \<lparr>vc_user_id = u, vc_username = ''alice'', vc_business_id = b\<rparr>
               = (Inr r1, Some s1)
           \<and> log_visit (Some s1) \<lparr>vc_user_id = u, vc_username = ''bob'', vc_business_id = b\<rparr>
               = (Inr r2, Some s2)
           \<and> find_one C_impact ''user_id'' (VStr u) s2
               = Some [(''_id'', VOid ioid), (''user_id'', VStr u), (''username'', VStr ''alice''),
                       (''visits'', VInt 2), (''eco_points'', VInt 20),
                       (''community_impact'', VInt 2), (''terra_level'', VInt 0)])" by blast
  from t have inc: "\<And>s p imp a b c. valid_business s (vc_business_id p)
      \<Longrightarrow> find_one C_impact ''user_id'' (VStr (vc_user_id p)) s = Some imp
      \<Longrightarrow> dict_get imp ''visits'' = Some (VInt a) \<Longrightarrow> dict_get imp ''eco_points'' = Some (VInt b)
      \<Longrightarrow> dict_get imp ''community_impact'' = Some (VInt c)
      \<Longrightarrow> (\<exists>r s' imp'. log_visit (Some s) p = (Inr r, Some s')
             \<and> find_one C_impact ''user_id'' (VStr (vc_user_id p)) s' = Some imp'
             \<and> dict_get imp' ''username'' = dict_get imp ''username''
             \<and> dict_get imp' ''visits'' = Some (VInt (a + 1))
             \<and> dict_get imp' ''eco_points'' = Some (VInt (b + 10))
             \<and> dict_get imp' ''community_impact'' = Some (VInt (c + 1)))" by blast
  from t have keep: "\<And>s p imp r s'.
      find_one C_impact ''user_id'' (VStr (vc_user_id p)) s = Some imp
      \<Longrightarrow> log_visit (Some s) p = (r, Some s')
      \<Longrightarrow> (\<exists>imp'. find_one C_impact ''user_id'' (VStr (vc_user_id p)) s' = Some imp'
             \<and> dict_get imp' ''username'' = dict_get imp ''username''
             \<and> dict_get imp' ''_id'' = dict_get imp ''_id'')" by blast
  have f: "find_one C_impact ''user_id'' (VStr (vc_user_id (visit_by ''bob'' ?b))) alice_visited = Some ?rec"
    unfolding uid by (rule alice_visited_record)
  have vb: "valid_business alice_visited (vc_business_id (visit_by ''bob'' ?b))"
    unfolding uid by (rule alice_visited_valid)
  from inc[OF vb f, of 1 10 1] obtain r s' imp' where
    lv: "log_visit (Some alice_visited) (visit_by ''bob'' ?b) = (Inr r, Some s')"
    and i: "find_one C_impact ''user_id'' (VStr ''u1'') s' = Some imp'"
    "dict_get imp' ''username'' = Some (VStr ''alice'')"
    "dict_get imp' ''visits'' = Some (VInt 2)"
    "dict_get imp' ''eco_points'' = Some (VInt 20)"
    "dict_get imp' ''community_impact'' = Some (VInt 2)"
    unfolding uid by (auto simp: dict_get_def)
  from keep[OF f lv] i(1) have "dict_get imp' ''_id'' = Some (VOid ''000000000000000000000002'')"
    unfolding uid by (auto simp: dict_get_def)
  with lv i have last: "\<exists>r s' imp'.
         log_visit (Some alice_visited) (visit_by ''bob'' ?b) = (Inr r, Some s')
       \<and> find_one C_impact ''user_id'' (VStr ''u1'') s' = Some imp'
       \<and> dict_get imp' ''username'' = Some (VStr ''alice'')
       \<and> dict_get imp' ''_id'' = Some (VOid ''000000000000000000000002'')
       \<and> dict_get imp' ''visits'' = Some (VInt 2)
       \<and> dict_get imp' ''eco_points'' = Some (VInt 20)
       \<and> dict_get imp' ''community_impact'' = Some (VInt 2)" by blast
  from scen[OF seeded_valid seeded_no_impact] seeded_valid seeded_no_impact alice_visited_valid last
  show ?thesis by (intro conjI) assumption+
qed

lemma find_None_filter: "find P xs = None \<Longrightarrow> filter P xs = []"
  by (induction xs) (auto split: if_splits)

lemma get_impact_existing:
  "find (matches ''user_id'' (VStr u)) (impact s) = Some (ioid, d)
   \<Longrightarrow> get_impact (Some s) u n = (Inr (dict_pop ''_id'' d), Some s)"
  by (simp add: get_impact_def find_one_impact dict_pop_to_dict)

lemma get_impact_new_user:
  assumes "find_one C_impact ''user_id'' (VStr u) s = None"
  shows "\<exists>s1 ioid rec.
           get_impact (Some s) u n
             = (Inr [(''user_id'', VStr u), (''username'', VStr (username_or_guest n)),
                     (''visits'', VInt 0), (''eco_points'', VInt 0),
                     (''community_impact'', VInt 0), (''terra_level'', VInt 0)], Some s1)
         \<and> username_or_guest None = ''Guest''
         \<and> find_one C_impact ''user_id'' (VStr u) s1 = Some ((''_id'', VOid ioid) # rec)
         \<and> filter (matches ''user_id'' (VStr u)) (impact s1) = [(ioid, rec)]
         \<and> dict_get rec ''user_id'' = Some (VStr u)
         \<and> dict_get rec ''username'' = Some (VStr (username_or_guest n))
         \<and> dict_get rec ''visits'' = Some (VInt 0)
         \<and> dict_get rec ''eco_points'' = Some (VInt 0)
         \<and> dict_get rec ''community_impact'' = Some (VInt 0)
         \<and> dict_get rec ''terra_level'' = Some (VInt 0)
         \<and> dict_get rec ''_id'' = None
         \<and> get_impact (Some s1) u n' = (Inr rec, Some s1)"
proof -
  let ?zero = "ImpactSchema u (username_or_guest n)"
  let ?rec = "?zero @ [(''created_at'', VInt (clock s))]"
  let ?s1 = "snd (create_document C_impact ?zero s)"
  from assms have nf: "find (matches ''user_id'' (VStr u)) (impact s) = None"
    by (simp add: find_one_impact_None)
  have g1: "get_impact (Some s) u n = (Inr ?zero, Some ?s1)"
    using assms by (simp add: get_impact_def Let_def)
  have i1: "impact ?s1 = impact s @ [(new_oid s, ?rec)]"
    by (simp add: create_document_def insert_one_def)
  have m: "matches ''user_id'' (VStr u) (new_oid s, ?rec)"
    by (simp add: matches_field dict_get_def ImpactSchema_def)
  have f1: "find (matches ''user_id'' (VStr u)) (impact ?s1) = Some (new_oid s, ?rec)"
    using nf m by (simp add: i1 find_snoc)
  have fl: "filter (matches ''user_id'' (VStr u)) (impact ?s1) = [(new_oid s, ?rec)]"
    using find_None_filter[OF nf] m by (simp add: i1)
  have p: "dict_pop ''_id'' ?rec = ?rec" by (simp add: dict_pop_def ImpactSchema_def)
  have g2: "get_impact (Some ?s1) u n' = (Inr ?rec, Some ?s1)"
    using get_impact_existing[OF f1] p by simp
  have flds: "dict_get ?rec ''user_id'' = Some (VStr u)"
    "dict_get ?rec ''username'' = Some (VStr (username_or_guest n))"
    "dict_get ?rec ''visits'' = Some (VInt 0)" "dict_get ?rec ''eco_points'' = Some (VInt 0)"
    "dict_get ?rec ''community_impact'' = Some (VInt 0)" "dict_get ?rec ''terra_level'' = Some (VInt 0)"
    "dict_get ?rec ''_id'' = None"
    by (simp_all add: dict_get_def ImpactSchema_def)
  have z: "?zero = [(''user_id'', VStr u), (''username'', VStr (username_or_guest n)),
                     (''visits'', VInt 0), (''eco_points'', VInt 0),
                     (''community_impact'', VInt 0), (''terra_level'', VInt 0)]"
    by (simp add: ImpactSchema_def)
  have guest: "username_or_guest None = ''Guest''" by (simp add: username_or_guest_def)
  have fo: "find_one C_impact ''user_id'' (VStr u) ?s1 = Some ((''_id'', VOid (new_oid s)) # ?rec)"
    using f1 by (rule find_one_impact_Some)
  show ?thesis
    apply (rule exI[of _ ?s1], rule exI[of _ "new_oid s"], rule exI[of _ ?rec])
    using g1 z guest fo fl flds g2 by (intro conjI) simp_all
qed

text \<open>
  C6. \<open>get_impact\<close> for a user with no Impact record answers the zero-valued snapshot
  (every counter and the level 0; the username of the call when one is given and is not
  empty, Guest otherwise) and persists it as the user's only record, counters untouched;
  a second \<open>get_impact\<close> for the user, with any username, answers that persisted record
  and leaves the store as it is.
\<close>

theorem get_impact_initialises_once:
  assumes "find_one C_impact ''user_id'' (VStr u) s = None"
  shows "\<exists>s1 ioid rec.
           get_impact (Some s) u n
             = (Inr [(''user_id'', VStr u),
                     (''username'',
                      VStr (case n of
                              None \<Rightarrow> ''Guest''
                            | Some name \<Rightarrow> if name = [] then ''Guest'' else name)),
                     (''visits'', VInt 0), (''eco_points'', VInt 0),
                     (''community_impact'', VInt 0), (''terra_level'', VInt 0)], Some s1)
         \<and> find_one C_impact ''user_id'' (VStr u) s1 = Some ((''_id'', VOid ioid) # rec)
         \<and> filter (matches ''user_id'' (VStr u)) (impact s1) = [(ioid, rec)]
         \<and> dict_get rec ''user_id'' = Some (VStr u)
         \<and> dict_get rec ''username''
             = Some (VStr (case n of
                             None \<Rightarrow> ''Guest''
                           | Some name \<Rightarrow> if name = [] then ''Guest'' else name))
         \<and> dict_get rec ''visits'' = Some (VInt 0)
         \<and> dict_get rec ''eco_points'' = Some (VInt 0)
         \<and> dict_get rec ''community_impact'' = Some (VInt 0)
         \<and> dict_get rec ''terra_level'' = Some (VInt 0)
         \<and> dict_get rec ''_id'' = None
         \<and> get_impact (Some s1) u n' = (Inr rec, Some s1)"
proof -
  have ug: "username_or_guest n
              = (case n of None \<Rightarrow> ''Guest'' | Some name \<Rightarrow> if name = [] then ''Guest'' else name)"
    by (simp add: username_or_guest_def)
  from get_impact_new_user[OF assms, of n n'] show ?thesis
    unfolding ug by blast
qed

theorem get_impact_initialises_once_witness:
  "find_one C_impact ''user_id'' (VStr ''u1'') seeded = None
   \<and> fst (get_impact (Some seeded) ''u1'' (Some ''alice''))
       = Inr [(''user_id'', VStr ''u1''), (''username'', VStr ''alice''), (''visits'', VInt 0),
              (''eco_points'', VInt 0), (''community_impact'', VInt 0), (''terra_level'', VInt 0)]
   \<and> (\<exists>s1 rec. snd (get_impact (Some seeded) ''u1'' (Some ''alice'')) = Some s1
        \<and> get_impact (Some s1) ''u1'' (Some ''bob'') = (Inr rec, Some s1)
        \<and> dict_get rec ''username'' = Some (VStr ''alice'')
        \<and> dict_get rec ''visits'' = Some (VInt 0)
        \<and> length (filter (matches ''user_id'' (VStr ''u1'')) (impact s1)) = 1)
   \<and> fst (get_impact (Some seeded) ''u1'' None)
       = Inr [(''user_id'', VStr ''u1''), (''username'', VStr ''Guest''), (''visits'', VInt 0),
              (''eco_points'', VInt 0), (''community_impact'', VInt 0), (''terra_level'', VInt 0)]
   \<and> fst (get_impact (Some seeded) ''u1'' (Some []))
       = Inr [(''user_id'', VStr ''u1''), (''username'', VStr ''Guest''), (''visits'', VInt 0),
              (''eco_points'', VInt 0), (''community_impact'', VInt 0), (''terra_level'', VInt 0)]"
proof -
  from get_impact_initialises_once[OF seeded_no_impact, of "Some ''alice''" "Some ''bob''"]
  obtain s1 ioid rec where
    "get_impact (Some seeded) ''u1'' (Some ''alice'')
       = (Inr [(''user_id'', VStr ''u1''), (''username'', VStr ''alice''),
               (''visits'', VInt 0), (''eco_points'', VInt 0),
               (''community_impact'', VInt 0), (''terra_level'', VInt 0)], Some s1)"
    "filter (matches ''user_id'' (VStr ''u1'')) (impact s1) = [(ioid, rec)]"
    "dict_get rec ''username'' = Some (VStr ''alice'')"
    "dict_get rec ''visits'' = Some (VInt 0)"
    "get_impact (Some s1) ''u1'' (Some ''bob'') = (Inr rec, Some s1)"
    by auto
  then have alice: "fst (get_impact (Some seeded) ''u1'' (Some ''alice''))
       = Inr [(''user_id'', VStr ''u1''), (''username'', VStr ''alice''), (''visits'', VInt 0),
              (''eco_points'', VInt 0), (''community_impact'', VInt 0), (''terra_level'', VInt 0)]"
    and again: "\<exists>s1 rec. snd (get_impact (Some seeded) ''u1'' (Some ''alice'')) = Some s1
        \<and> get_impact (Some s1) ''u1'' (Some ''bob'') = (Inr rec, Some s1)
        \<and> dict_get rec ''username'' = Some (VStr ''alice'')
        \<and> dict_get rec ''visits'' = Some (VInt 0)
        \<and> length (filter (matches ''user_id'' (VStr ''u1'')) (impact s1)) = 1"
    by auto
  from get_impact_initialises_once[OF seeded_no_impact, of None None]
  have guest: "fst (get_impact (Some seeded) ''u1'' None)
       = Inr [(''user_id'', VStr ''u1''), (''username'', VStr ''Guest''), (''visits'', VInt 0),
              (''eco_points'', VInt 0), (''community_impact'', VInt 0), (''terra_level'', VInt 0)]"
    by auto
  from get_impact_initialises_once[OF seeded_no_impact, of "Some []" None]
  have empty: "fst (get_impact (Some seeded) ''u1'' (Some []))
       = Inr [(''user_id'', VStr ''u1''), (''username'', VStr ''Guest''), (''visits'', VInt 0),
              (''eco_points'', VInt 0), (''community_impact'', VInt 0), (''terra_level'', VInt 0)]"
    by auto
  from seeded_no_impact alice again guest empty show ?thesis by (intro conjI) assumption+
qed

lemma hex_digit_in: "hex_digit d \<in> set ''0123456789abcdef''"
  unfolding hex_digit_def by (rule nth_mem) simp

lemma hex_digit_ok: "is_hex (hex_digit d)" "lower_hex (hex_digit d) = hex_digit d"
  using hex_digit_in[of d] by (auto simp: is_hex_def lower_hex_def)

lemma hex_digits_ok:
  "length (hex_digits k n) = k" "list_all is_hex (hex_digits k n)"
  "map lower_hex (hex_digits k n) = hex_digits k n"
  by (induction k arbitrary: n) (simp_all add: hex_digit_ok)

lemma is_hex_not_space: "is_hex c \<Longrightarrow> \<not> is_space c"
  by (auto simp: is_hex_def is_space_def)

lemma fromhex_digits:
  "list_all is_hex xs \<Longrightarrow> even (length xs) \<Longrightarrow> fromhex xs = Some (map lower_hex xs)"
  by (induction xs rule: fromhex.induct) (simp_all add: is_hex_not_space)

lemma ObjectId_new_oid: "ObjectId (new_oid s) = Some (new_oid s)"
  using fromhex_digits[of "hex_digits 24 (next_oid s)"]
  by (simp add: ObjectId_def new_oid_def hex24_def hex_digits_ok)

lemma opt_str_ok: "is_opt_str (Some (opt_str x))" "is_opt_str None"
  by (simp_all add: is_opt_str_def opt_str_def split: option.splits)

lemma BusinessSchema_default:
  "BusinessSchema (BusinessCreate_dump p) = Inr (business_record p 80)"
  by (simp add: BusinessSchema_def BusinessCreate_dump_def dict_get_def is_str_def opt_str_ok
      field_or_def business_record_def)

lemma BusinessSchema_score:
  "BusinessSchema (dict_set ''eco_score'' (VInt sc) (BusinessCreate_dump p))
   = (if 0 \<le> sc \<and> sc \<le> 100 then Inr (business_record p sc) else Inl (Unhandled ''ValidationError''))"
  by (simp add: BusinessSchema_def BusinessCreate_dump_def dict_get_def dict_set_def is_str_def
      opt_str_ok field_or_def business_record_def)

lemma business_doc_to_response_to_dict:
  "business_doc_to_response (to_dict (oid, d)) = Inr (dict_set ''id'' (VStr oid) (dict_pop ''_id'' d))"
  by (simp add: business_doc_to_response_def dict_get_to_dict dict_pop_to_dict)

lemma find_fresh:
  "list_all (\<lambda>sd. fst sd \<noteq> oid) ds \<Longrightarrow> find (matches ''_id'' (VOid oid)) (ds @ [(oid, d)]) = Some (oid, d)"
  by (induction ds) (auto simp: matches_id)

lemma register_business_store:
  assumes b: "BusinessSchema (if bc_eco_checks p \<noteq> []
                then dict_set ''eco_score'' (VInt (eco_score_of (bc_eco_checks p))) (BusinessCreate_dump p)
                else BusinessCreate_dump p) = Inr rec"
    and fresh: "fresh_business_id s"
  shows "register_business (Some s) p =
           (Inr (dict_set ''id'' (VStr (new_oid s))
                  (dict_pop ''_id'' (rec @ [(''created_at'', VInt (clock s))]))),
            Some (s\<lparr>business := business s @ [(new_oid s, rec @ [(''created_at'', VInt (clock s))])],
                    next_oid := Suc (next_oid s), clock := clock s + 1\<rparr>))"
proof -
  let ?d = "rec @ [(''created_at'', VInt (clock s))]"
  let ?s' = "s\<lparr>business := business s @ [(new_oid s, ?d)],
                    next_oid := Suc (next_oid s), clock := clock s + 1\<rparr>"
  have c: "create_document C_business rec s = (new_oid s, ?s')"
    by (simp add: create_document_def insert_one_def)
  have f: "find_one C_business ''_id'' (VOid (new_oid s)) ?s' = Some (to_dict (new_oid s, ?d))"
    using fresh by (simp add: find_one_def fresh_business_id_def find_fresh)
  show ?thesis
    using b c f by (simp add: register_business_def Let_def ObjectId_new_oid
        business_doc_to_response_to_dict del: BusinessSchema_score)
qed


lemma to_obj_id_new_oid: "to_obj_id (new_oid s) = Inr (new_oid s)"
  by (simp add: to_obj_id_def ObjectId_new_oid)

lemma register_business_ok:
  assumes sc: "sc = (if bc_eco_checks p \<noteq> [] then eco_score_of (bc_eco_checks p) else 80)"
    and le: "sc \<le> 100"
    and fresh: "fresh_business_id s"
  shows "\<exists>r s' rec. register_business (Some s) p = (Inr r, Some s')
           \<and> business s' = business s @ [(new_oid s, rec)]
           \<and> dict_get rec ''eco_score'' = Some (VInt sc)
           \<and> dict_get r ''eco_score'' = Some (VInt sc)
           \<and> dict_get r ''id'' = Some (VStr (new_oid s))
           \<and> dict_get r ''_id'' = None
           \<and> get_business (Some s') (new_oid s) = Inr r"
proof -
  let ?rec = "business_record p sc @ [(''created_at'', VInt (clock s))]"
  let ?r = "dict_set ''id'' (VStr (new_oid s)) (dict_pop ''_id'' ?rec)"
  let ?s' = "s\<lparr>business := business s @ [(new_oid s, ?rec)],
                    next_oid := Suc (next_oid s), clock := clock s + 1\<rparr>"
  have "0 \<le> sc" using sc by (simp add: eco_score_of_def)
  with sc le have b: "BusinessSchema (if bc_eco_checks p \<noteq> []
                then dict_set ''eco_score'' (VInt (eco_score_of (bc_eco_checks p))) (BusinessCreate_dump p)
                else BusinessCreate_dump p) = Inr (business_record p sc)"
    by (cases "bc_eco_checks p = []") (simp_all add: BusinessSchema_default BusinessSchema_score)
  have rb: "register_business (Some s) p = (Inr ?r, Some ?s')"
    by (rule register_business_store[OF b fresh])
  have f: "find_one C_business ''_id'' (VOid (new_oid s)) ?s' = Some (to_dict (new_oid s, ?rec))"
    using fresh by (simp add: find_one_def fresh_business_id_def find_fresh)
  have gb: "get_business (Some ?s') (new_oid s) = Inr ?r"
    using f by (simp add: get_business_def to_obj_id_new_oid business_doc_to_response_to_dict)
  have "dict_get ?rec ''eco_score'' = Some (VInt sc)"
    by (simp add: dict_get_def business_record_def)
  moreover have "dict_get ?r ''eco_score'' = Some (VInt sc)"
    by (simp add: dict_get_set dict_get_pop) (simp add: dict_get_def business_record_def)
  moreover have "dict_get ?r ''id'' = Some (VStr (new_oid s))" "dict_get ?r ''_id'' = None"
    by (simp_all add: dict_get_set dict_get_pop)
  moreover have "business ?s' = business s @ [(new_oid s, ?rec)]" by simp
  ultimately show ?thesis using rb gb by blast
qed

lemma register_business_rejected:
  assumes "100 < eco_score_of (bc_eco_checks p)"
  shows "register_business (Some s) p = (Inl (Unhandled ''ValidationError''), Some s)"
proof -
  from assms have "bc_eco_checks p \<noteq> []" by (auto simp: eco_score_of_def)
  with assms show ?thesis
    by (simp add: register_business_def Let_def BusinessSchema_score)
qed

text \<open>
  C7 (as the code has it). A \<open>register_business\<close> call with a non-empty checklist of at
  most five true entries, on a store that assigns an unused id, persists a Business whose
  \<open>eco_score\<close> is 60 plus 8 for each true entry and returns it with its id, under which
  it is found again. With more than five true entries the score is above 100: the
  Business schema rejects it and the store is unchanged.
\<close>

theorem register_business_score:
  "(bc_eco_checks p \<noteq> [] \<and> length (filter (\<lambda>c. c) (bc_eco_checks p)) \<le> 5 \<and> fresh_business_id s
      \<longrightarrow> (\<exists>r s' rec. register_business (Some s) p = (Inr r, Some s')
             \<and> business s' = business s @ [(new_oid s, rec)]
             \<and> dict_get rec ''eco_score''
                 = Some (VInt (60 + 8 * int (length (filter (\<lambda>c. c) (bc_eco_checks p)))))
             \<and> dict_get r ''eco_score''
                 = Some (VInt (60 + 8 * int (length (filter (\<lambda>c. c) (bc_eco_checks p)))))
             \<and> dict_get r ''id'' = Some (VStr (new_oid s))
             \<and> get_business (Some s') (new_oid s) = Inr r))
   \<and> (5 < length (filter (\<lambda>c. c) (bc_eco_checks p'))
      \<longrightarrow> register_business (Some s) p' = (Inl (Unhandled ''ValidationError''), Some s))"
proof (intro conjI impI; (elim conjE)?)
  assume ne: "bc_eco_checks p \<noteq> []" and le: "length (filter (\<lambda>c. c) (bc_eco_checks p)) \<le> 5"
    and fresh: "fresh_business_id s"
  let ?sc = "60 + 8 * int (length (filter (\<lambda>c. c) (bc_eco_checks p)))"
  have sc: "?sc = (if bc_eco_checks p \<noteq> [] then eco_score_of (bc_eco_checks p) else 80)"
    using ne by (simp add: eco_score_of_def)
  have "?sc \<le> 100" using le by simp
  from register_business_ok[OF sc this fresh]
  show "\<exists>r s' rec. register_business (Some s) p = (Inr r, Some s')
             \<and> business s' = business s @ [(new_oid s, rec)]
             \<and> dict_get rec ''eco_score'' = Some (VInt ?sc)
             \<and> dict_get r ''eco_score'' = Some (VInt ?sc)
             \<and> dict_get r ''id'' = Some (VStr (new_oid s))
             \<and> get_business (Some s') (new_oid s) = Inr r" by blast
next
  assume "5 < length (filter (\<lambda>c. c) (bc_eco_checks p'))"
  then have "100 < eco_score_of (bc_eco_checks p')" by (simp add: eco_score_of_def)
  then show "register_business (Some s) p' = (Inl (Unhandled ''ValidationError''), Some s)"
    by (rule register_business_rejected)
qed

lemma seeded_fresh: "fresh_business_id seeded"
  by code_simp

lemma seeded_new_oid: "new_oid seeded = ''000000000000000000000001''"
  by code_simp

theorem register_business_score_witness:
  "bc_eco_checks (new_business [True, True, True, True, False]) \<noteq> []
   \<and> length (filter (\<lambda>c. c) (bc_eco_checks (new_business [True, True, True, True, False]))) \<le> 5
   \<and> fresh_business_id seeded
   \<and> (\<exists>r s'. register_business (Some seeded) (new_business [True, True, True, True, False])
                 = (Inr r, Some s')
        \<and> dict_get r ''eco_score'' = Some (VInt 92)
        \<and> dict_get r ''id'' = Some (VStr ''000000000000000000000001'')
        \<and> get_business (Some s') ''000000000000000000000001'' = Inr r)
   \<and> 5 < length (filter (\<lambda>c. c) (bc_eco_checks (new_business [True, True, True, True, True, True])))
   \<and> register_business (Some seeded) (new_business [True, True, True, True, True, True])
       = (Inl (Unhandled ''ValidationError''), Some seeded)"
proof -
  let ?p = "new_business [True, True, True, True, False]"
  let ?p' = "new_business [True, True, True, True, True, True]"
  have c: "bc_eco_checks ?p = [True, True, True, True, False]"
    "bc_eco_checks ?p' = [True, True, True, True, True, True]"
    by (simp_all add: new_business_def)
  note t = register_business_score[of ?p seeded ?p']
  from t c seeded_fresh obtain r s' where
    "register_business (Some seeded) ?p = (Inr r, Some s')"
    "dict_get r ''eco_score'' = Some (VInt 92)"
    "dict_get r ''id'' = Some (VStr (new_oid seeded))"
    "get_business (Some s') (new_oid seeded) = Inr r"
    by auto
  moreover from t c have "register_business (Some seeded) ?p'
       = (Inl (Unhandled ''ValidationError''), Some seeded)" by simp
  ultimately show ?thesis using c seeded_fresh unfolding seeded_new_oid by auto
qed

theorem register_business_score_counterexample:
  "register_business (Some seeded) (new_business [True, True, True, True, True, True])
     = (Inl (Unhandled ''ValidationError''), Some seeded)"
  by code_simp

text \<open>
  C10. The request model of \<open>register_business\<close> has seven fields and \<open>eco_score\<close> is not
  one of them; a call with an empty checklist, on a store that assigns an unused id,
  persists and returns a Business with the schema's default \<open>eco_score\<close> of 80.
\<close>

theorem register_business_default_score:
  "map fst (BusinessCreate_dump p)
     = [''name'', ''category'', ''location'', ''website'', ''description'', ''eco_checks'', ''logo_url'']
   \<and> dict_get (BusinessCreate_dump p) ''eco_score'' = None
   \<and> (bc_eco_checks p = [] \<and> fresh_business_id s
      \<longrightarrow> (\<exists>r s' rec. register_business (Some s) p = (Inr r, Some s')
             \<and> business s' = business s @ [(new_oid s, rec)]
             \<and> dict_get rec ''eco_score'' = Some (VInt 80)
             \<and> dict_get r ''eco_score'' = Some (VInt 80)
             \<and> dict_get r ''id'' = Some (VStr (new_oid s))))"
proof (intro conjI impI; (elim conjE)?)
  show "map fst (BusinessCreate_dump p)
     = [''name'', ''category'', ''location'', ''website'', ''description'', ''eco_checks'', ''logo_url'']"
    by (simp add: BusinessCreate_dump_def)
  show "dict_get (BusinessCreate_dump p) ''eco_score'' = None"
    by (simp add: BusinessCreate_dump_def dict_get_def)
next
  assume e: "bc_eco_checks p = []" and fresh: "fresh_business_id s"
  have sc: "80 = (if bc_eco_checks p \<noteq> [] then eco_score_of (bc_eco_checks p) else 80)"
    using e by simp
  from register_business_ok[OF sc _ fresh]
  show "\<exists>r s' rec. register_business (Some s) p = (Inr r, Some s')
             \<and> business s' = business s @ [(new_oid s, rec)]
             \<and> dict_get rec ''eco_score'' = Some (VInt 80)
             \<and> dict_get r ''eco_score'' = Some (VInt 80)
             \<and> dict_get r ''id'' = Some (VStr (new_oid s))" by auto
qed

theorem register_business_default_score_witness:
  "bc_eco_checks (new_business []) = [] \<and> fresh_business_id seeded
   \<and> (\<exists>r s' rec. register_business (Some seeded) (new_business []) = (Inr r, Some s')
        \<and> business s' = business seeded @ [(''000000000000000000000001'', rec)]
        \<and> dict_get rec ''eco_score'' = Some (VInt 80)
        \<and> dict_get r ''eco_score'' = Some (VInt 80))"
proof -
  have c: "bc_eco_checks (new_business []) = []" by (simp add: new_business_def)
  from register_business_default_score[of "new_business []" seeded] c seeded_fresh
  show ?thesis unfolding seeded_new_oid by blast
qed



































end
